theory Spec2Isabelle
  imports Main
begin

section \<open>Python values and exceptions\<close>

text \<open>
  The provider's response body and the stage results are Python values obtained from JSON
  (\<^verbatim>\<open>response.json()\<close>) or serialised to it (\<^verbatim>\<open>json.dumps\<close>). JSON \<^verbatim>\<open>null\<close> is Python's
  \<^verbatim>\<open>None\<close>; a dict is kept as an association list read with \<open>map_of\<close>. Of a float only
  its truth value and its type name are ever used by the code below.
\<close>

datatype pyfloat = FFinite int int | FInf bool | FNaN

datatype json =
    JNull
  | JBool bool
  | JInt int
  | JFloat pyfloat
  | JStr string
  | JArr "json list"
  | JObj "(string \<times> json) list"

text \<open>
  An exception of class \<^verbatim>\<open>Exception\<close>: its class name and \<^verbatim>\<open>str(e)\<close>. Signals that are
  only \<^verbatim>\<open>BaseException\<close> (task cancellation, interpreter exit) are outside the model.
\<close>

datatype exn = Exn string string

fun str_exn :: "exn \<Rightarrow> string" where
  "str_exn (Exn cls msg) = msg"

fun type_name :: "json \<Rightarrow> string" where
  "type_name JNull = ''NoneType''"
| "type_name (JBool b) = ''bool''"
| "type_name (JInt i) = ''int''"
| "type_name (JFloat f) = ''float''"
| "type_name (JStr s) = ''str''"
| "type_name (JArr xs) = ''list''"
| "type_name (JObj kvs) = ''dict''"

text \<open>Python truth value, as tested by \<^verbatim>\<open>not choices\<close>, \<^verbatim>\<open>content or ""\<close>.\<close>

fun truthy :: "json \<Rightarrow> bool" where
  "truthy JNull = False"
| "truthy (JBool b) = b"
| "truthy (JInt i) = (i \<noteq> 0)"
| "truthy (JFloat (FFinite m e)) = (m \<noteq> 0)"
| "truthy (JFloat f) = True"
| "truthy (JStr s) = (s \<noteq> [])"
| "truthy (JArr xs) = (xs \<noteq> [])"
| "truthy (JObj kvs) = (kvs \<noteq> [])"

text \<open>\<^verbatim>\<open>v.get(key, default)\<close>: only a dict has the method.\<close>

fun py_get :: "json \<Rightarrow> string \<Rightarrow> json \<Rightarrow> exn + json" where
  "py_get (JObj kvs) k d = Inr (case map_of kvs k of None \<Rightarrow> d | Some v \<Rightarrow> v)"
| "py_get v k d =
     Inl (Exn ''AttributeError''
       ([CHR 0x27] @ type_name v @ [CHR 0x27] @ '' object has no attribute '' @
        [CHR 0x27] @ ''get'' @ [CHR 0x27]))"

text \<open>\<^verbatim>\<open>len(v)\<close>: strings, lists and dicts are sized.\<close>

fun py_len :: "json \<Rightarrow> exn + nat" where
  "py_len (JStr s) = Inr (length s)"
| "py_len (JArr xs) = Inr (length xs)"
| "py_len (JObj kvs) = Inr (length kvs)"
| "py_len v =
     Inl (Exn ''TypeError''
       (''object of type '' @ [CHR 0x27] @ type_name v @ [CHR 0x27] @ '' has no len()''))"

text \<open>\<^verbatim>\<open>v[0]\<close>. The keys of a dict parsed from JSON are strings, so the key \<open>0\<close> is missing.\<close>

fun py_index0 :: "json \<Rightarrow> exn + json" where
  "py_index0 (JArr []) = Inl (Exn ''IndexError'' ''list index out of range'')"
| "py_index0 (JArr (x # xs)) = Inr x"
| "py_index0 (JStr []) = Inl (Exn ''IndexError'' ''string index out of range'')"
| "py_index0 (JStr (c # cs)) = Inr (JStr [c])"
| "py_index0 (JObj kvs) = Inl (Exn ''KeyError'' ''0'')"
| "py_index0 v =
     Inl (Exn ''TypeError''
       ([CHR 0x27] @ type_name v @ [CHR 0x27] @ '' object is not subscriptable''))"

text \<open>Sequencing of statements that may raise: the first exception ends the block.\<close>

definition and_then :: "exn + 'a \<Rightarrow> ('a \<Rightarrow> exn + 'b) \<Rightarrow> exn + 'b" where
  "and_then m f = (case m of Inl e \<Rightarrow> Inl e | Inr a \<Rightarrow> f a)"

section \<open>The model gateway: \<^verbatim>\<open>backend/openrouter.py\<close>\<close>

text \<open>
  What \<^verbatim>\<open>httpx\<close> hands back: the status code, the text of the body, and the outcome of
  \<^verbatim>\<open>response.json()\<close>, which raises on a body that is not JSON.
\<close>

record response =
  status_code :: int
  response_text :: string
  response_json :: "exn + json"

text \<open>
  The outcome of \<^verbatim>\<open>await client.post(...)\<close> inside the \<^verbatim>\<open>async with\<close> block: a transport
  error or an elapsed timeout is raised, anything else is a response.
\<close>

datatype http_outcome = Raises exn | Responds response

text \<open>A message is a \<^verbatim>\<open>Dict[str, str]\<close>; the transport is given the payload's two fields.\<close>

type_synonym message = "(string \<times> string) list"

type_synonym transport = "string \<Rightarrow> message list \<Rightarrow> http_outcome"

text \<open>
  \<^verbatim>\<open>_extract_error_message\<close>, up to the final \<^verbatim>\<open>str(...)\<close>, which is total: the result is
  the value that \<^verbatim>\<open>str\<close> is applied to.
\<close>

definition extract_error_message :: "response \<Rightarrow> exn + json" where
  "extract_error_message rsp =
     (case response_json rsp of
        Inl e \<Rightarrow>
          Inr (JStr (map (\<lambda>c. if c = CHR 0x0A then CHR '' '' else c)
                      (take 300 (response_text rsp))))
      | Inr data \<Rightarrow>
          and_then (py_get data ''error'' JNull) (\<lambda>error.
            case error of
              JObj kvs \<Rightarrow> py_get error ''message'' error
            | _ \<Rightarrow> Inr (if truthy error then error else data)))"

text \<open>The dict returned on success: both keys are always present, \<open>JNull\<close> is \<^verbatim>\<open>None\<close>.\<close>

record result =
  content :: json
  reasoning_details :: json

text \<open>
  The body of the \<^verbatim>\<open>try\<close> block of \<^verbatim>\<open>query_model\<close> (lines 64 to 115). The arguments of the
  logging calls are evaluated before the call, so they are kept where they can raise;
  the logger itself does not raise.
\<close>

definition query_model_try :: "http_outcome \<Rightarrow> exn + result option" where
  "query_model_try out =
     (case out of
        Raises e \<Rightarrow> Inl e
      | Responds rsp \<Rightarrow>
          if status_code rsp \<ge> 400 then
            and_then (extract_error_message rsp) (\<lambda>logged. Inr None)
          else
            and_then (response_json rsp) (\<lambda>data.
            and_then (py_get data ''choices'' (JArr [])) (\<lambda>choices.
              if \<not> truthy choices then Inr None
              else
                and_then (py_index0 choices) (\<lambda>choice0.
                and_then (py_get choice0 ''message'' (JObj [])) (\<lambda>message.
                and_then (py_get data ''usage'' (JObj [])) (\<lambda>usage.
                and_then (py_get usage ''completion_tokens'' (JStr ''n/a'')) (\<lambda>completion_tokens.
                and_then (py_get usage ''total_tokens'' (JStr ''n/a'')) (\<lambda>total_tokens.
                and_then (py_index0 choices) (\<lambda>choice0'.
                and_then (py_get choice0' ''finish_reason'' (JStr ''unknown'')) (\<lambda>finish_reason.
                and_then (py_get message ''content'' JNull) (\<lambda>content.
                and_then (py_get message ''reasoning_details'' JNull) (\<lambda>reasoning_details.
                and_then (py_len (if truthy content then content else JStr [])) (\<lambda>content_chars.
                  Inr (Some \<lparr>content = content,
                             reasoning_details = reasoning_details\<rparr>))))))))))))))"

text \<open>
  \<^verbatim>\<open>query_model\<close>: the \<^verbatim>\<open>try\<close> block under its handler \<^verbatim>\<open>except Exception\<close>, which returns
  \<^verbatim>\<open>None\<close>. Line 53, before the \<^verbatim>\<open>try\<close>, takes \<^verbatim>\<open>len\<close> of strings only, on messages of the
  declared type. \<open>Inl\<close> would be an exception raised to the caller.
\<close>

definition query_model :: "transport \<Rightarrow> string \<Rightarrow> message list \<Rightarrow> exn + result option" where
  "query_model post model messages =
     (case query_model_try (post model messages) of
        Inl e \<Rightarrow> Inr None
      | Inr r \<Rightarrow> Inr r)"

section \<open>The fan-out dispatcher: \<^verbatim>\<open>query_models_parallel\<close>\<close>

text \<open>
  \<^verbatim>\<open>asyncio.gather(*tasks)\<close>, with \<^verbatim>\<open>return_exceptions\<close> left at \<^verbatim>\<open>False\<close>. The tasks finish
  in some order, given as the list of their positions; each result is stored in the slot of
  its own position, and the first task to raise makes the gathering raise. The awaiting
  caller is resumed with the slots, read in task order, once every slot is filled:
  \<open>None\<close> is a caller that is never resumed.
\<close>

fun gather_run :: "(exn + 'a) list \<Rightarrow> nat list \<Rightarrow> 'a option list \<Rightarrow> exn + 'a option list" where
  "gather_run tasks [] slots = Inr slots"
| "gather_run tasks (i # completions) slots =
     (if i < length tasks then
        (case tasks ! i of
           Inl e \<Rightarrow> Inl e
         | Inr v \<Rightarrow> gather_run tasks completions (slots[i := Some v]))
      else gather_run tasks completions slots)"

definition gather :: "(exn + 'a) list \<Rightarrow> nat list \<Rightarrow> (exn + 'a list) option" where
  "gather tasks completions =
     (case gather_run tasks completions (replicate (length tasks) None) of
        Inl e \<Rightarrow> Some (Inl e)
      | Inr slots \<Rightarrow>
          (case those slots of
             None \<Rightarrow> None
           | Some responses \<Rightarrow> Some (Inr responses)))"

text \<open>
  A Python dict keeps its keys in the order of their first insertion; storing under a key
  that is present replaces the value where the key stands.
\<close>

fun dict_set :: "('k \<times> 'v) list \<Rightarrow> 'k \<Rightarrow> 'v \<Rightarrow> ('k \<times> 'v) list" where
  "dict_set [] k v = [(k, v)]"
| "dict_set ((k', v') # d) k v =
     (if k' = k then (k', v) # d else (k', v') # dict_set d k v)"

text \<open>The comprehension \<^verbatim>\<open>{k: v for k, v in items}\<close>.\<close>

definition dict_of :: "('k \<times> 'v) list \<Rightarrow> ('k \<times> 'v) list" where
  "dict_of items = foldl (\<lambda>d (k, v). dict_set d k v) [] items"

text \<open>
  \<^verbatim>\<open>query_models_parallel\<close>. The call at position \<open>i\<close> of \<^verbatim>\<open>models\<close> has its own transport
  \<open>posts i\<close>, so that two calls for one model id may end differently; \<open>completions\<close> is
  the order in which the calls finish.
\<close>

definition query_models_parallel ::
  "(nat \<Rightarrow> transport) \<Rightarrow> nat list \<Rightarrow> string list \<Rightarrow> message list \<Rightarrow>
   (exn + (string \<times> result option) list) option" where
  "query_models_parallel posts completions models messages =
     (let tasks = map (\<lambda>(i, model). query_model (posts i) model messages)
                      (enumerate 0 models)
      in case gather tasks completions of
           None \<Rightarrow> None
         | Some (Inl e) \<Rightarrow> Some (Inl e)
         | Some (Inr responses) \<Rightarrow> Some (Inr (dict_of (zip models responses))))"

section \<open>The endpoints: \<^verbatim>\<open>backend/main.py\<close>\<close>

subsection \<open>Collaborators\<close>

text \<open>
  \<^verbatim>\<open>backend/storage.py\<close> and \<^verbatim>\<open>backend/council.py\<close> are called by the endpoints. Each of
  their functions is an argument of the model: what it returns, or the exception it raises.
  The stage results are values that \<^verbatim>\<open>json.dumps\<close> accepts.
\<close>

datatype storage_call =
    AddUserMessage string string
  | UpdateConversationTitle string string
  | AddAssistantMessage string json json json

record collaborators =
  storage_raises :: "storage_call \<Rightarrow> exn option"
  generate_conversation_title :: "string \<Rightarrow> exn + string"
  stage1_collect_responses :: "string \<Rightarrow> exn + json"
  stage2_collect_rankings :: "string \<Rightarrow> json \<Rightarrow> exn + json \<times> json"
  calculate_aggregate_rankings :: "json \<Rightarrow> json \<Rightarrow> exn + json"
  stage3_synthesize_final :: "string \<Rightarrow> json \<Rightarrow> json \<Rightarrow> exn + json"
  run_full_council :: "string \<Rightarrow> exn + json \<times> json \<times> json \<times> json"

text \<open>
  Modelled from the spec: \<^verbatim>\<open>backend/storage.py\<close> is missing. The store is a key-value store
  of conversation records; \<^verbatim>\<open>get_conversation(id)\<close> gives the record or nothing,
  \<^verbatim>\<open>append_user_message\<close> and \<^verbatim>\<open>append_assistant_message\<close> append to the record's
  messages and \<^verbatim>\<open>set_title\<close> sets its title. The spec does not say what a storage call
  that raises leaves in the store: \<open>persisted\<close> below replays the calls that returned, and
  the store is only spoken of for runs in which every storage call that was made returned.
\<close>

datatype stored_message = UserMessage string | AssistantMessage json json json

record conversation =
  title :: string
  messages :: "stored_message list"

type_synonym store = "string \<Rightarrow> conversation option"

definition get_conversation :: "store \<Rightarrow> string \<Rightarrow> conversation option" where
  "get_conversation st conversation_id = st conversation_id"

fun apply_storage :: "store \<Rightarrow> storage_call \<Rightarrow> store" where
  "apply_storage st (AddUserMessage cid text) =
     (case st cid of
        None \<Rightarrow> st
      | Some c \<Rightarrow> st(cid \<mapsto> c\<lparr>messages := messages c @ [UserMessage text]\<rparr>))"
| "apply_storage st (UpdateConversationTitle cid t) =
     (case st cid of
        None \<Rightarrow> st
      | Some c \<Rightarrow> st(cid \<mapsto> c\<lparr>title := t\<rparr>))"
| "apply_storage st (AddAssistantMessage cid s1 s2 s3) =
     (case st cid of
        None \<Rightarrow> st
      | Some c \<Rightarrow> st(cid \<mapsto> c\<lparr>messages := messages c @ [AssistantMessage s1 s2 s3]\<rparr>))"

subsection \<open>Runs and their effects\<close>

text \<open>
  What an endpoint does, in order: the storage calls that returned, the coroutines it
  awaited in place, the task it created and the place where it awaited that task, and the
  events it yielded. An event stands for the line
  \<^verbatim>\<open>data: {json.dumps(...)}\<close> of the same \<^verbatim>\<open>type\<close> and payload.
\<close>

datatype call =
    GenerateConversationTitle string
  | Stage1CollectResponses string
  | Stage2CollectRankings string json
  | Stage3SynthesizeFinal string json json
  | RunFullCouncil string

datatype event =
    Stage1Start
  | Stage1Complete json
  | Stage2Start
  | Stage2Complete json json json
  | Stage3Start
  | Stage3Complete json
  | TitleComplete string
  | Complete
  | Error string

datatype effect =
    Stored storage_call
  | Await call
  | CreateTask call
  | AwaitTask call
  | Yield event

text \<open>A run: the effects so far, and the value it returned or the exception that ended it.\<close>

type_synonym 'a run = "effect list \<times> (exn + 'a)"

definition seq :: "'a run \<Rightarrow> ('a \<Rightarrow> 'b run) \<Rightarrow> 'b run" where
  "seq m f =
     (case snd m of
        Inl e \<Rightarrow> (fst m, Inl e)
      | Inr a \<Rightarrow> (fst m @ fst (f a), snd (f a)))"

definition expr :: "exn + 'a \<Rightarrow> 'a run" where
  "expr r = ([], r)"

definition yield :: "event \<Rightarrow> unit run" where
  "yield ev = ([Yield ev], Inr ())"

definition await :: "call \<Rightarrow> exn + 'a \<Rightarrow> 'a run" where
  "await c r = ([Await c], r)"

definition storage :: "collaborators \<Rightarrow> storage_call \<Rightarrow> unit run" where
  "storage env sc =
     (case storage_raises env sc of
        Some e \<Rightarrow> ([], Inl e)
      | None \<Rightarrow> ([Stored sc], Inr ()))"

definition events_of :: "effect list \<Rightarrow> event list" where
  "events_of tr = concat (map (\<lambda>x. case x of Yield ev \<Rightarrow> [ev] | _ \<Rightarrow> []) tr)"

definition stored_of :: "effect list \<Rightarrow> storage_call list" where
  "stored_of tr = concat (map (\<lambda>x. case x of Stored sc \<Rightarrow> [sc] | _ \<Rightarrow> []) tr)"

definition persisted :: "store \<Rightarrow> effect list \<Rightarrow> store" where
  "persisted st tr = foldl apply_storage st (stored_of tr)"

subsection \<open>Streaming mode\<close>

text \<open>
  The \<^verbatim>\<open>try\<close> block of \<^verbatim>\<open>event_generator\<close> (lines 207 to 278). \<open>title_task\<close> is \<^verbatim>\<open>None\<close> or the
  task created for the title. The arguments of the three \<^verbatim>\<open>logger.info\<close> calls are evaluated
  where they stand: \<^verbatim>\<open>len(stage1_results)\<close>, \<^verbatim>\<open>len(stage2_results)\<close> and
  \<^verbatim>\<open>stage3_result.get("model", "unknown")\<close>.
\<close>

definition event_generator_try :: "collaborators \<Rightarrow> string \<Rightarrow> string \<Rightarrow> bool \<Rightarrow> unit run" where
  "event_generator_try env conversation_id request_content is_first_message =
     seq (storage env (AddUserMessage conversation_id request_content)) (\<lambda>_.
     seq (if is_first_message
          then ([CreateTask (GenerateConversationTitle request_content)],
                Inr (Some (GenerateConversationTitle request_content)))
          else ([], Inr None)) (\<lambda>title_task.
     seq (yield Stage1Start) (\<lambda>_.
     seq (await (Stage1CollectResponses request_content)
            (stage1_collect_responses env request_content)) (\<lambda>stage1_results.
     seq (expr (py_len stage1_results)) (\<lambda>_.
     seq (yield (Stage1Complete stage1_results)) (\<lambda>_.
     seq (yield Stage2Start) (\<lambda>_.
     seq (await (Stage2CollectRankings request_content stage1_results)
            (stage2_collect_rankings env request_content stage1_results)) (\<lambda>(stage2_results, label_to_model).
     seq (expr (calculate_aggregate_rankings env stage2_results label_to_model)) (\<lambda>aggregate_rankings.
     seq (expr (py_len stage2_results)) (\<lambda>_.
     seq (yield (Stage2Complete stage2_results label_to_model aggregate_rankings)) (\<lambda>_.
     seq (yield Stage3Start) (\<lambda>_.
     seq (await (Stage3SynthesizeFinal request_content stage1_results stage2_results)
            (stage3_synthesize_final env request_content stage1_results stage2_results)) (\<lambda>stage3_result.
     seq (expr (py_get stage3_result ''model'' (JStr ''unknown''))) (\<lambda>_.
     seq (yield (Stage3Complete stage3_result)) (\<lambda>_.
     seq (case title_task of
            Some task \<Rightarrow>
              seq ([AwaitTask task], generate_conversation_title env request_content) (\<lambda>title.
              seq (storage env (UpdateConversationTitle conversation_id title)) (\<lambda>_.
              yield (TitleComplete title)))
          | None \<Rightarrow> ([], Inr ())) (\<lambda>_.
     seq (storage env (AddAssistantMessage conversation_id
            stage1_results stage2_results stage3_result)) (\<lambda>_.
     yield Complete)))))))))))))))))"

text \<open>
  \<^verbatim>\<open>event_generator\<close>, consumed to its end: the \<^verbatim>\<open>try\<close> block, and the handler
  \<^verbatim>\<open>except Exception as e\<close>, which yields the error event with \<^verbatim>\<open>str(e)\<close>.
\<close>

definition event_generator :: "collaborators \<Rightarrow> string \<Rightarrow> string \<Rightarrow> bool \<Rightarrow> effect list" where
  "event_generator env conversation_id request_content is_first_message =
     (case event_generator_try env conversation_id request_content is_first_message of
        (tr, Inl e) \<Rightarrow> tr @ [Yield (Error (str_exn e))]
      | (tr, Inr _) \<Rightarrow> tr)"

text \<open>
  \<^verbatim>\<open>send_message_stream\<close>: \<open>Inl\<close> is the \<^verbatim>\<open>HTTPException\<close> raised before any streaming,
  \<open>Inr\<close> the effects of the generator handed to \<^verbatim>\<open>StreamingResponse\<close>.
\<close>

definition send_message_stream ::
  "collaborators \<Rightarrow> store \<Rightarrow> string \<Rightarrow> string \<Rightarrow> exn + effect list" where
  "send_message_stream env st conversation_id request_content =
     (case get_conversation st conversation_id of
        None \<Rightarrow> Inl (Exn ''HTTPException'' ''404: Conversation not found'')
      | Some conversation \<Rightarrow>
          (let is_first_message = (length (messages conversation) = 0)
           in Inr (event_generator env conversation_id request_content is_first_message)))"

subsection \<open>Blocking mode\<close>

record council_response =
  stage1 :: json
  stage2 :: json
  stage3 :: json
  metadata :: json

text \<open>\<^verbatim>\<open>send_message\<close> (lines 94 to 174). There is no \<^verbatim>\<open>try\<close> in it.\<close>

definition send_message ::
  "collaborators \<Rightarrow> store \<Rightarrow> string \<Rightarrow> string \<Rightarrow> council_response run" where
  "send_message env st conversation_id request_content =
     (case get_conversation st conversation_id of
        None \<Rightarrow> ([], Inl (Exn ''HTTPException'' ''404: Conversation not found''))
      | Some conversation \<Rightarrow>
          (let is_first_message = (length (messages conversation) = 0) in
           seq (storage env (AddUserMessage conversation_id request_content)) (\<lambda>_.
           seq (if is_first_message
                then
                  seq (await (GenerateConversationTitle request_content)
                         (generate_conversation_title env request_content)) (\<lambda>title.
                  storage env (UpdateConversationTitle conversation_id title))
                else ([], Inr ())) (\<lambda>_.
           seq (await (RunFullCouncil request_content)
                  (run_full_council env request_content)) (\<lambda>(stage1_results, stage2_results, stage3_result, metadata).
           seq (expr (py_len stage1_results)) (\<lambda>_.
           seq (expr (py_len stage2_results)) (\<lambda>_.
           seq (expr (py_get stage3_result ''model'' (JStr ''unknown''))) (\<lambda>_.
           seq (storage env (AddAssistantMessage conversation_id
                  stage1_results stage2_results stage3_result)) (\<lambda>_.
           ([], Inr \<lparr>stage1 = stage1_results, stage2 = stage2_results,
                     stage3 = stage3_result, metadata = metadata\<rparr>))))))))))"

subsection \<open>Order of effects\<close>

text \<open>
  \<open>precedes P Q xs\<close>: every element of \<open>xs\<close> that satisfies \<open>Q\<close> stands after an element
  that satisfies \<open>P\<close>.
\<close>

fun precedes :: "('a \<Rightarrow> bool) \<Rightarrow> ('a \<Rightarrow> bool) \<Rightarrow> 'a list \<Rightarrow> bool" where
  "precedes P Q [] = True"
| "precedes P Q (x # xs) = (\<not> Q x \<and> (P x \<or> precedes P Q xs))"

subsection \<open>Example collaborators\<close>

text \<open>
  Transports that answer every request alike, collaborators that all succeed, and a store
  holding one conversation without messages; the concrete runs below are variations of
  these.
\<close>

definition respond_with :: "response \<Rightarrow> transport" where
  "respond_with rsp = (\<lambda>model messages. Responds rsp)"

definition raise_with :: "exn \<Rightarrow> transport" where
  "raise_with e = (\<lambda>model messages. Raises e)"

definition example_env :: collaborators where
  "example_env =
     \<lparr>storage_raises = (\<lambda>sc. None),
      generate_conversation_title = (\<lambda>q. Inr ''Greeting''),
      stage1_collect_responses = (\<lambda>q. Inr (JArr [JObj [(''model'', JStr ''m1'')]])),
      stage2_collect_rankings = (\<lambda>q s1. Inr (JArr [], JObj [(''Response A'', JStr ''m1'')])),
      calculate_aggregate_rankings = (\<lambda>s2 lm. Inr (JArr [])),
      stage3_synthesize_final = (\<lambda>q s1 s2. Inr (JObj [(''model'', JStr ''m1'')])),
      run_full_council =
        (\<lambda>q. Inr (JArr [JObj [(''model'', JStr ''m1'')]], JArr [],
                 JObj [(''model'', JStr ''m1'')], JObj []))\<rparr>"

definition example_store :: store where
  "example_store = (\<lambda>cid. None)(''c1'' \<mapsto> \<lparr>title = ''New Conversation'', messages = []\<rparr>)"

section \<open>Properties of the model gateway\<close>

lemma and_then_Inr [simp]: "and_then (Inr a) f = f a"
  by (simp add: and_then_def)

lemma and_then_Inl [simp]: "and_then (Inl e) f = Inl e"
  by (simp add: and_then_def)

lemma query_model_try_well_formed:
  assumes "status_code rsp < 400"
    and "response_json rsp = Inr (JObj body)"
    and "map_of body ''choices'' = Some (JArr (JObj choice # rest))"
    and "map_of choice ''message'' = Some (JObj msg)"
    and "map_of body ''usage'' = None \<or> (\<exists>u. map_of body ''usage'' = Some (JObj u))"
    and "c = (case map_of msg ''content'' of None \<Rightarrow> JNull | Some v \<Rightarrow> v)"
    and "c = JNull \<or> (\<exists>s. c = JStr s) \<or> (\<exists>xs. c = JArr xs) \<or> (\<exists>kvs. c = JObj kvs)"
  shows "query_model_try (Responds rsp) =
           Inr (Some \<lparr>content = c,
                      reasoning_details =
                        (case map_of msg ''reasoning_details'' of None \<Rightarrow> JNull | Some v \<Rightarrow> v)\<rparr>)"
  using assms by (auto simp: query_model_try_def)

lemma query_model_handler:
  "query_model_try (post model msgs) = Inl e \<Longrightarrow> query_model post model msgs = Inr None"
  by (simp add: query_model_def)

lemma query_model_returns:
  "query_model_try (post model msgs) = Inr r \<Longrightarrow> query_model post model msgs = Inr r"
  by (simp add: query_model_def)

lemma query_model_total: "\<exists>r. query_model post model msgs = Inr r"
  by (cases "query_model_try (post model msgs)") (simp_all add: query_model_def)

lemma query_model_try_raises: "query_model_try (Raises e) = Inl e"
  by (simp add: query_model_try_def)

lemma query_model_try_status:
  "status_code rsp \<ge> 400 \<Longrightarrow>
   query_model_try (Responds rsp) = Inr None \<or> (\<exists>e. query_model_try (Responds rsp) = Inl e)"
  by (cases "extract_error_message rsp") (simp_all add: query_model_try_def)

lemma query_model_try_bad_json:
  "\<not> status_code rsp \<ge> 400 \<Longrightarrow> response_json rsp = Inl e \<Longrightarrow>
   query_model_try (Responds rsp) = Inl e"
  by (simp add: query_model_try_def)

lemma query_model_try_no_choices:
  "\<not> status_code rsp \<ge> 400 \<Longrightarrow> response_json rsp = Inr (JObj body) \<Longrightarrow>
   map_of body ''choices'' = None \<or> map_of body ''choices'' = Some (JArr []) \<Longrightarrow>
   query_model_try (Responds rsp) = Inr None"
  by (auto simp: query_model_try_def)

lemma query_model_failure:
  "query_model_try (post model msgs) = Inr None \<or>
   (\<exists>e. query_model_try (post model msgs) = Inl e) \<Longrightarrow>
   query_model post model msgs = Inr None"
  by (auto simp: query_model_def)

text \<open>
  Claim C3. \<^verbatim>\<open>query_model\<close> never raises to its caller. It returns \<^verbatim>\<open>None\<close> when the
  transport raises (a transport error or a timeout), when the status is 400 or more, when
  the body is not JSON, when \<^verbatim>\<open>choices\<close> is missing or empty, and whenever any statement
  of the \<^verbatim>\<open>try\<close> block raises.
\<close>

theorem query_model_never_raises:
  "(\<exists>r. query_model post model msgs = Inr r) \<and>
   (\<forall>e. post model msgs = Raises e \<longrightarrow> query_model post model msgs = Inr None) \<and>
   (\<forall>rsp. post model msgs = Responds rsp \<and> status_code rsp \<ge> 400 \<longrightarrow>
      query_model post model msgs = Inr None) \<and>
   (\<forall>rsp e. post model msgs = Responds rsp \<and> response_json rsp = Inl e \<longrightarrow>
      query_model post model msgs = Inr None) \<and>
   (\<forall>rsp body. post model msgs = Responds rsp \<and> response_json rsp = Inr (JObj body) \<and>
      (map_of body ''choices'' = None \<or> map_of body ''choices'' = Some (JArr [])) \<longrightarrow>
      query_model post model msgs = Inr None) \<and>
   (\<forall>e. query_model_try (post model msgs) = Inl e \<longrightarrow>
      query_model post model msgs = Inr None)"
proof (intro conjI allI impI)
  show "\<exists>r. query_model post model msgs = Inr r"
    by (rule query_model_total)
next
  fix e assume "post model msgs = Raises e"
  then show "query_model post model msgs = Inr None"
    by (intro query_model_failure) (simp add: query_model_try_raises)
next
  fix rsp assume "post model msgs = Responds rsp \<and> status_code rsp \<ge> 400"
  then show "query_model post model msgs = Inr None"
    using query_model_try_status [of rsp] by (intro query_model_failure) simp
next
  fix rsp e assume a: "post model msgs = Responds rsp \<and> response_json rsp = Inl e"
  show "query_model post model msgs = Inr None"
  proof (cases "status_code rsp \<ge> 400")
    case True
    with a show ?thesis
      using query_model_try_status [of rsp] by (intro query_model_failure) simp
  next
    case False
    with a show ?thesis
      using query_model_try_bad_json [of rsp e] by (intro query_model_failure) simp
  qed
next
  fix rsp body
  assume a: "post model msgs = Responds rsp \<and> response_json rsp = Inr (JObj body) \<and>
      (map_of body ''choices'' = None \<or> map_of body ''choices'' = Some (JArr []))"
  show "query_model post model msgs = Inr None"
  proof (cases "status_code rsp \<ge> 400")
    case True
    with a show ?thesis
      using query_model_try_status [of rsp] by (intro query_model_failure) simp
  next
    case False
    with a show ?thesis
      using query_model_try_no_choices [of rsp body] by (intro query_model_failure) simp
  qed
next
  fix e assume "query_model_try (post model msgs) = Inl e"
  then show "query_model post model msgs = Inr None"
    by (rule query_model_handler)
qed

theorem query_model_never_raises_witness:
  "query_model (raise_with (Exn ''ReadTimeout'' []))
     ''openai/gpt-oss-120b'' [[(''role'', ''user''), (''content'', ''hi'')]] = Inr None \<and>
   query_model (respond_with \<lparr>status_code = 503, response_text = ''busy'',
       response_json = Inl (Exn ''JSONDecodeError'' ''Expecting value'')\<rparr>)
     ''openai/gpt-oss-120b'' [[(''role'', ''user''), (''content'', ''hi'')]] = Inr None \<and>
   query_model (respond_with \<lparr>status_code = 200, response_text = ''{}'',
       response_json = Inr (JObj [(''choices'', JArr [])])\<rparr>)
     ''openai/gpt-oss-120b'' [[(''role'', ''user''), (''content'', ''hi'')]] = Inr None"
  using
    query_model_never_raises [of "raise_with (Exn ''ReadTimeout'' [])"
      "''openai/gpt-oss-120b''" "[[(''role'', ''user''), (''content'', ''hi'')]]"]
    query_model_never_raises [of "respond_with \<lparr>status_code = 503,
       response_text = ''busy'',
       response_json = Inl (Exn ''JSONDecodeError'' ''Expecting value'')\<rparr>"
      "''openai/gpt-oss-120b''" "[[(''role'', ''user''), (''content'', ''hi'')]]"]
    query_model_never_raises [of "respond_with \<lparr>status_code = 200,
       response_text = ''{}'',
       response_json = Inr (JObj [(''choices'', JArr [])])\<rparr>"
      "''openai/gpt-oss-120b''" "[[(''role'', ''user''), (''content'', ''hi'')]]"]
  by (simp add: respond_with_def raise_with_def)

theorem query_model_missing_content_counterexample:
  "query_model (respond_with \<lparr>status_code = 200, response_text = [],
       response_json = Inr (JObj [(''choices'',
         JArr [JObj [(''message'', JObj [(''role'', JStr ''assistant'')])]])])\<rparr>)
     ''openai/gpt-oss-120b'' [[(''role'', ''user''), (''content'', ''hi'')]]
   = Inr (Some \<lparr>content = JNull, reasoning_details = JNull\<rparr>)"
  by (simp add: query_model_def query_model_try_def respond_with_def)

text \<open>
  Claim C4, as amended. On a 2xx response whose first choice has a message without
  \<^verbatim>\<open>content\<close> (or with \<^verbatim>\<open>content\<close> null), \<^verbatim>\<open>query_model\<close> does not return \<^verbatim>\<open>None\<close>: it
  returns the dict, with \<^verbatim>\<open>content\<close> set to \<^verbatim>\<open>None\<close> and the provider's
  \<^verbatim>\<open>reasoning_details\<close>. The claim as stated, a failure result, fails on the concrete
  response evaluated just above.
\<close>

theorem query_model_missing_content:
  assumes "post model msgs = Responds rsp"
    and "200 \<le> status_code rsp \<and> status_code rsp < 300"
    and "response_json rsp = Inr (JObj body)"
    and "map_of body ''choices'' = Some (JArr (JObj choice # rest))"
    and "map_of choice ''message'' = Some (JObj msg)"
    and "map_of body ''usage'' = None \<or> (\<exists>u. map_of body ''usage'' = Some (JObj u))"
    and "map_of msg ''content'' = None \<or> map_of msg ''content'' = Some JNull"
  shows "query_model post model msgs =
           Inr (Some \<lparr>content = JNull,
                      reasoning_details =
                        (case map_of msg ''reasoning_details'' of None \<Rightarrow> JNull | Some v \<Rightarrow> v)\<rparr>)"
proof -
  from assms(7) have c: "JNull = (case map_of msg ''content'' of None \<Rightarrow> JNull | Some v \<Rightarrow> v)"
    by auto
  from assms(2) have s: "status_code rsp < 400"
    by simp
  have "query_model_try (Responds rsp) =
           Inr (Some \<lparr>content = JNull,
                      reasoning_details =
                        (case map_of msg ''reasoning_details'' of None \<Rightarrow> JNull | Some v \<Rightarrow> v)\<rparr>)"
    by (rule query_model_try_well_formed [OF s assms(3) assms(4) assms(5) assms(6) c]) simp
  with assms(1) show ?thesis
    by (simp add: query_model_returns)
qed

theorem query_model_missing_content_witness:
  "query_model (respond_with \<lparr>status_code = 200, response_text = [],
       response_json = Inr (JObj [(''choices'',
         JArr [JObj [(''message'', JObj [(''role'', JStr ''assistant'')])]])])\<rparr>)
     ''openai/gpt-oss-120b'' [[(''role'', ''user''), (''content'', ''hi'')]]
   = Inr (Some \<lparr>content = JNull, reasoning_details = JNull\<rparr>)"
  using query_model_missing_content [of
      "respond_with \<lparr>status_code = 200, response_text = [],
       response_json = Inr (JObj [(''choices'',
         JArr [JObj [(''message'', JObj [(''role'', JStr ''assistant'')])]])])\<rparr>"
      "''openai/gpt-oss-120b''" "[[(''role'', ''user''), (''content'', ''hi'')]]"
      "\<lparr>status_code = 200, response_text = [],
       response_json = Inr (JObj [(''choices'',
         JArr [JObj [(''message'', JObj [(''role'', JStr ''assistant'')])]])])\<rparr>"
      "[(''choices'', JArr [JObj [(''message'', JObj [(''role'', JStr ''assistant'')])]])]"
      "[(''message'', JObj [(''role'', JStr ''assistant'')])]" "[]"
      "[(''role'', JStr ''assistant'')]"]
  by (simp add: respond_with_def)




section \<open>Properties of the fan-out dispatcher\<close>

lemma keys_dict_set:
  "map fst (dict_set d k v) = (if k \<in> set (map fst d) then map fst d else map fst d @ [k])"
  by (induction d) force+

lemma map_of_dict_set: "map_of (dict_set d k v) = (map_of d)(k \<mapsto> v)"
  by (induction d) (auto simp: fun_eq_iff)

lemma dict_of_snoc: "dict_of (items @ [(k, v)]) = dict_set (dict_of items) k v"
  by (simp add: dict_of_def)

lemma keys_dict_of: "map fst (dict_of items) = rev (remdups (rev (map fst items)))"
proof (induction items rule: rev_induct)
  case Nil
  show ?case by (simp add: dict_of_def)
next
  case (snoc p items)
  obtain k v where p: "p = (k, v)" by (cases p)
  have s: "set (map fst (dict_of items)) = set (map fst items)"
    by (simp only: snoc.IH set_rev set_remdups)
  show ?case
    unfolding p dict_of_snoc keys_dict_set s
    using snoc.IH by simp
qed

lemma map_of_dict_of: "map_of (dict_of items) = map_of (rev items)"
proof (induction items rule: rev_induct)
  case Nil
  show ?case by (simp add: dict_of_def)
next
  case (snoc p items)
  obtain k v where p: "p = (k, v)" by (cases p)
  show ?case
    unfolding p dict_of_snoc map_of_dict_set snoc.IH
    by (simp add: fun_eq_iff)
qed

lemma dict_of_distinct: "distinct (map fst items) \<Longrightarrow> dict_of items = items"
proof (induction items rule: rev_induct)
  case Nil
  show ?case by (simp add: dict_of_def)
next
  case (snoc p items)
  obtain k v where p: "p = (k, v)" by (cases p)
  from snoc.prems have d: "distinct (map fst items)" and n: "k \<notin> set (map fst items)"
    by (simp_all add: p)
  have fresh: "k \<notin> set (map fst d) \<Longrightarrow> dict_set d k v = d @ [(k, v)]" for d :: "('a \<times> 'b) list"
    by (induction d) auto
  show ?case
    unfolding p dict_of_snoc using snoc.IH [OF d] n by (simp add: fresh)
qed

lemma map_of_rev_last:
  assumes "i < length ps" and "ps ! i = (k, v)"
    and "\<forall>j<length ps. i < j \<longrightarrow> fst (ps ! j) \<noteq> k"
  shows "map_of (rev ps) k = Some v"
  using assms
proof (induction ps rule: rev_induct)
  case Nil
  then show ?case by simp
next
  case (snoc p ps)
  show ?case
  proof (cases "i < length ps")
    case True
    have last: "fst p \<noteq> k"
      using snoc.prems(3) [rule_format, of "length ps"] True by simp
    have "\<forall>j<length ps. i < j \<longrightarrow> fst (ps ! j) \<noteq> k"
    proof (intro allI impI)
      fix j assume "j < length ps" "i < j"
      then show "fst (ps ! j) \<noteq> k"
        using snoc.prems(3) [rule_format, of j] by (simp add: nth_append)
    qed
    moreover have "ps ! i = (k, v)"
      using snoc.prems(2) True by (simp add: nth_append)
    ultimately have "map_of (rev ps) k = Some v"
      using snoc.IH True by blast
    with last show ?thesis
      by (cases p) simp
  next
    case False
    with snoc.prems(1) have "i = length ps" by simp
    with snoc.prems(2) have "p = (k, v)" by simp
    then show ?thesis by simp
  qed
qed

lemma those_map_Some: "those (map Some vs) = Some vs"
  by (induction vs) simp_all

lemma gather_run_all_return:
  assumes "length vs = length tasks" and "\<forall>i<length tasks. tasks ! i = Inr (vs ! i)"
    and "length slots = length tasks"
  shows "\<exists>slots'. gather_run tasks cs slots = Inr slots' \<and> length slots' = length tasks \<and>
           (\<forall>i<length tasks. slots' ! i = (if i \<in> set cs then Some (vs ! i) else slots ! i))"
  using assms(3)
proof (induction cs arbitrary: slots)
  case Nil
  then show ?case by simp
next
  case (Cons c cs)
  show ?case
  proof (cases "c < length tasks")
    case True
    have len: "length (slots[c := Some (vs ! c)]) = length tasks"
      using Cons.prems by simp
    from Cons.IH [OF len] obtain slots' where
      r: "gather_run tasks cs (slots[c := Some (vs ! c)]) = Inr slots'"
      and l: "length slots' = length tasks"
      and n: "\<forall>i<length tasks. slots' ! i =
                (if i \<in> set cs then Some (vs ! i) else slots[c := Some (vs ! c)] ! i)"
      by blast
    have "gather_run tasks (c # cs) slots = Inr slots'"
      using True r assms(2) by simp
    moreover have "\<forall>i<length tasks. slots' ! i =
                (if i \<in> set (c # cs) then Some (vs ! i) else slots ! i)"
      using n Cons.prems by (auto simp: nth_list_update)
    ultimately show ?thesis
      using l by blast
  next
    case False
    from Cons.IH [OF Cons.prems] obtain slots' where
      r: "gather_run tasks cs slots = Inr slots'"
      and l: "length slots' = length tasks"
      and n: "\<forall>i<length tasks. slots' ! i = (if i \<in> set cs then Some (vs ! i) else slots ! i)"
      by blast
    have "gather_run tasks (c # cs) slots = Inr slots'"
      using False r by simp
    moreover have "\<forall>i<length tasks. slots' ! i =
                (if i \<in> set (c # cs) then Some (vs ! i) else slots ! i)"
      using n False by auto
    ultimately show ?thesis
      using l by blast
  qed
qed

lemma gather_all_return:
  assumes "length vs = length tasks" and "\<forall>i<length tasks. tasks ! i = Inr (vs ! i)"
    and "set cs = {..<length tasks}"
  shows "gather tasks cs = Some (Inr vs)"
proof -
  have "length (replicate (length tasks) (None :: 'a option)) = length tasks"
    by simp
  from gather_run_all_return [OF assms(1) assms(2) this, of cs] obtain slots' where
    r: "gather_run tasks cs (replicate (length tasks) None) = Inr slots'"
    and l: "length slots' = length tasks"
    and n: "\<forall>i<length tasks. slots' ! i =
              (if i \<in> set cs then Some (vs ! i) else replicate (length tasks) None ! i)"
    by blast
  have "slots' = map Some vs"
  proof (rule nth_equalityI)
    show "length slots' = length (map Some vs)"
      using l assms(1) by simp
  next
    fix i assume "i < length slots'"
    then show "slots' ! i = map Some vs ! i"
      using n l assms(1) assms(3) by simp
  qed
  with r show ?thesis
    by (simp add: gather_def those_map_Some)
qed

lemma query_models_parallel_returns:
  assumes "set completions = {..<length models}"
  shows "\<exists>rs. length rs = length models \<and>
           (\<forall>i<length models. query_model (posts i) (models ! i) msgs = Inr (rs ! i)) \<and>
           query_models_parallel posts completions models msgs =
             Some (Inr (dict_of (zip models rs)))"
proof -
  define tasks where
    "tasks = map (\<lambda>(i, model). query_model (posts i) model msgs) (enumerate 0 models)"
  define rs where "rs = map projr tasks"
  have lt: "length tasks = length models"
    by (simp add: tasks_def)
  have nth: "tasks ! i = query_model (posts i) (models ! i) msgs" if "i < length models" for i
    using that by (simp add: tasks_def nth_enumerate_eq)
  have ok: "\<forall>i<length tasks. tasks ! i = Inr (rs ! i)"
  proof (intro allI impI)
    fix i assume i: "i < length tasks"
    obtain r where "query_model (posts i) (models ! i) msgs = Inr r"
      using query_model_total by blast
    with i lt show "tasks ! i = Inr (rs ! i)"
      by (simp add: rs_def nth)
  qed
  have "gather tasks completions = Some (Inr rs)"
    by (rule gather_all_return [OF _ ok]) (simp_all add: rs_def assms lt)
  then have "query_models_parallel posts completions models msgs =
               Some (Inr (dict_of (zip models rs)))"
    by (simp add: query_models_parallel_def tasks_def)
  moreover have "length rs = length models"
    by (simp add: rs_def lt)
  moreover have "\<forall>i<length models. query_model (posts i) (models ! i) msgs = Inr (rs ! i)"
    using ok lt nth by simp
  ultimately show ?thesis
    by (intro exI [where x = rs]) simp
qed

text \<open>
  Claim C2. For a list of \<open>N\<close> distinct model ids, once every call has finished, in
  whatever order, \<^verbatim>\<open>query_models_parallel\<close> returns a dict of exactly \<open>N\<close> entries whose keys
  are the input list in its order; the entry at position \<open>i\<close> holds what the call for the
  \<open>i\<close>-th model returned, and a failed call is present with \<^verbatim>\<open>None\<close>.
\<close>

theorem query_models_parallel_order:
  assumes "distinct models" and "set completions = {..<length models}"
  shows "\<exists>d. query_models_parallel posts completions models msgs = Some (Inr d) \<and>
           length d = length models \<and>
           map fst d = models \<and>
           (\<forall>i<length models.
              query_model (posts i) (models ! i) msgs = Inr (snd (d ! i))) \<and>
           (\<forall>i<length models.
              query_model (posts i) (models ! i) msgs = Inr None \<longrightarrow>
              d ! i = (models ! i, None))"
proof -
  from query_models_parallel_returns [OF assms(2)] obtain rs where
    l: "length rs = length models"
    and r: "\<forall>i<length models. query_model (posts i) (models ! i) msgs = Inr (rs ! i)"
    and q: "query_models_parallel posts completions models msgs =
              Some (Inr (dict_of (zip models rs)))"
    by blast
  have d: "dict_of (zip models rs) = zip models rs"
    using assms(1) l by (intro dict_of_distinct) simp
  have "\<forall>i<length models.
          query_model (posts i) (models ! i) msgs = Inr None \<longrightarrow>
          zip models rs ! i = (models ! i, None)"
    using r l by auto
  then show ?thesis
    using q l r by (intro exI [where x = "zip models rs"]) (simp add: d)
qed

text \<open>
  Claim C9. With duplicate model ids in the input the returned dict has one entry for each
  distinct id, holding the response of the id's last occurrence; the number of entries is
  the number of distinct ids, below the length of the input unless the ids are distinct.
\<close>

theorem query_models_parallel_duplicates:
  assumes "set completions = {..<length models}"
  shows "\<exists>d. query_models_parallel posts completions models msgs = Some (Inr d) \<and>
           distinct (map fst d) \<and>
           set (map fst d) = set models \<and>
           length d = card (set models) \<and>
           (\<forall>i<length models.
              (\<forall>j<length models. i < j \<longrightarrow> models ! j \<noteq> models ! i) \<longrightarrow>
              (\<exists>r. query_model (posts i) (models ! i) msgs = Inr r \<and>
                   map_of d (models ! i) = Some r)) \<and>
           (\<not> distinct models \<longrightarrow> length d < length models) \<and>
           (distinct models \<longrightarrow> length d = length models)"
proof -
  from query_models_parallel_returns [OF assms] obtain rs where
    l: "length rs = length models"
    and r: "\<forall>i<length models. query_model (posts i) (models ! i) msgs = Inr (rs ! i)"
    and q: "query_models_parallel posts completions models msgs =
              Some (Inr (dict_of (zip models rs)))"
    by blast
  let ?d = "dict_of (zip models rs)"
  have keys: "map fst ?d = rev (remdups (rev models))"
    using l by (simp add: keys_dict_of)
  have dist: "distinct (map fst ?d)"
    by (simp add: keys)
  have sets: "set (map fst ?d) = set models"
    by (simp only: keys set_rev set_remdups)
  have "length (map fst ?d) = card (set models)"
    using distinct_card [OF dist] sets by simp
  then have len: "length ?d = card (set models)"
    by simp
  have last: "\<forall>i<length models.
              (\<forall>j<length models. i < j \<longrightarrow> models ! j \<noteq> models ! i) \<longrightarrow>
              (\<exists>r. query_model (posts i) (models ! i) msgs = Inr r \<and>
                   map_of ?d (models ! i) = Some r)"
  proof (intro allI impI)
    fix i
    assume i: "i < length models"
      and a: "\<forall>j<length models. i < j \<longrightarrow> models ! j \<noteq> models ! i"
    have "map_of (rev (zip models rs)) (models ! i) = Some (rs ! i)"
      using i l a by (intro map_of_rev_last [where i = i]) simp_all
    then show "\<exists>r. query_model (posts i) (models ! i) msgs = Inr r \<and>
                   map_of ?d (models ! i) = Some r"
      using r i by (simp add: map_of_dict_of)
  qed
  have less: "\<not> distinct models \<longrightarrow> length ?d < length models"
  proof
    assume "\<not> distinct models"
    with card_distinct [of models] have "card (set models) \<noteq> length models"
      by blast
    with card_length [of models] show "length ?d < length models"
      by (simp add: len)
  qed
  have same: "distinct models \<longrightarrow> length ?d = length models"
    by (simp add: len distinct_card)
  show ?thesis
    by (intro exI [where x = ?d] conjI q dist sets len last less same)
qed

theorem query_models_parallel_order_witness:
  "distinct [''openai/gpt-oss-120b'', ''z-ai/glm-4.5-air:free''] \<and>
   set [1, 0] = {..<length [''openai/gpt-oss-120b'', ''z-ai/glm-4.5-air:free'']} \<and>
   (\<exists>d. query_models_parallel
      (\<lambda>i model msgs. if i = 0 then Raises (Exn ''ReadTimeout'' [])
        else Responds \<lparr>status_code = 200, response_text = [],
          response_json = Inr (JObj [(''choices'',
            JArr [JObj [(''message'', JObj [(''content'', JStr model)])]])])\<rparr>)
      [1, 0] [''openai/gpt-oss-120b'', ''z-ai/glm-4.5-air:free''] [[(''role'', ''user''), (''content'', ''hi'')]] = Some (Inr d) \<and>
      length d = length [''openai/gpt-oss-120b'', ''z-ai/glm-4.5-air:free''] \<and>
      map fst d = [''openai/gpt-oss-120b'', ''z-ai/glm-4.5-air:free''] \<and>
      (\<forall>i<length [''openai/gpt-oss-120b'', ''z-ai/glm-4.5-air:free''].
         query_model ((\<lambda>i model msgs. if i = 0 then Raises (Exn ''ReadTimeout'' [])
        else Responds \<lparr>status_code = 200, response_text = [],
          response_json = Inr (JObj [(''choices'',
            JArr [JObj [(''message'', JObj [(''content'', JStr model)])]])])\<rparr>) i)
           ([''openai/gpt-oss-120b'', ''z-ai/glm-4.5-air:free''] ! i) [[(''role'', ''user''), (''content'', ''hi'')]] = Inr (snd (d ! i))) \<and>
      (\<forall>i<length [''openai/gpt-oss-120b'', ''z-ai/glm-4.5-air:free''].
         query_model ((\<lambda>i model msgs. if i = 0 then Raises (Exn ''ReadTimeout'' [])
        else Responds \<lparr>status_code = 200, response_text = [],
          response_json = Inr (JObj [(''choices'',
            JArr [JObj [(''message'', JObj [(''content'', JStr model)])]])])\<rparr>) i)
           ([''openai/gpt-oss-120b'', ''z-ai/glm-4.5-air:free''] ! i) [[(''role'', ''user''), (''content'', ''hi'')]] = Inr None \<longrightarrow>
         d ! i = ([''openai/gpt-oss-120b'', ''z-ai/glm-4.5-air:free''] ! i, None))) \<and>
   query_models_parallel
     (\<lambda>i model msgs. if i = 0 then Raises (Exn ''ReadTimeout'' [])
        else Responds \<lparr>status_code = 200, response_text = [],
          response_json = Inr (JObj [(''choices'',
            JArr [JObj [(''message'', JObj [(''content'', JStr model)])]])])\<rparr>)
     [1, 0] [''openai/gpt-oss-120b'', ''z-ai/glm-4.5-air:free''] [[(''role'', ''user''), (''content'', ''hi'')]] =
   Some (Inr [(''openai/gpt-oss-120b'', None),
              (''z-ai/glm-4.5-air:free'',
               Some \<lparr>content = JStr ''z-ai/glm-4.5-air:free'', reasoning_details = JNull\<rparr>)])"
proof -
  have h1: "distinct [''openai/gpt-oss-120b'', ''z-ai/glm-4.5-air:free'']"
    by simp
  have h2: "set [1, 0] = {..<length [''openai/gpt-oss-120b'', ''z-ai/glm-4.5-air:free'']}"
    by (simp add: lessThan_Suc)
  have v: "query_models_parallel
     (\<lambda>i model msgs. if i = 0 then Raises (Exn ''ReadTimeout'' [])
        else Responds \<lparr>status_code = 200, response_text = [],
          response_json = Inr (JObj [(''choices'',
            JArr [JObj [(''message'', JObj [(''content'', JStr model)])]])])\<rparr>)
     [1, 0] [''openai/gpt-oss-120b'', ''z-ai/glm-4.5-air:free''] [[(''role'', ''user''), (''content'', ''hi'')]] =
   Some (Inr [(''openai/gpt-oss-120b'', None),
              (''z-ai/glm-4.5-air:free'',
               Some \<lparr>content = JStr ''z-ai/glm-4.5-air:free'', reasoning_details = JNull\<rparr>)])"
    by (simp add: query_models_parallel_def gather_def dict_of_def query_model_def
          query_model_try_def and_then_def enumerate_eq_zip)
  show ?thesis
    using h1 h2 v query_models_parallel_order [OF h1 h2, of
     "(\<lambda>i model msgs. if i = 0 then Raises (Exn ''ReadTimeout'' [])
        else Responds \<lparr>status_code = 200, response_text = [],
          response_json = Inr (JObj [(''choices'',
            JArr [JObj [(''message'', JObj [(''content'', JStr model)])]])])\<rparr>)" "[[(''role'', ''user''), (''content'', ''hi'')]]"]
    by blast
qed

theorem query_models_parallel_duplicates_witness:
  "set [2, 0, 1] = {..<length [''openai/gpt-oss-120b'', ''z-ai/glm-4.5-air:free'', ''openai/gpt-oss-120b'']} \<and>
   (\<exists>d. query_models_parallel
      (\<lambda>i model msgs. Responds \<lparr>status_code = 200, response_text = [],
          response_json = Inr (JObj [(''choices'',
            JArr [JObj [(''message'', JObj [(''content'', JStr ''ok''), (''reasoning_details'', JInt (int i))])]])])\<rparr>)
      [2, 0, 1] [''openai/gpt-oss-120b'', ''z-ai/glm-4.5-air:free'', ''openai/gpt-oss-120b''] [[(''role'', ''user''), (''content'', ''hi'')]] = Some (Inr d) \<and>
      distinct (map fst d) \<and>
      set (map fst d) = set [''openai/gpt-oss-120b'', ''z-ai/glm-4.5-air:free'', ''openai/gpt-oss-120b''] \<and>
      length d = card (set [''openai/gpt-oss-120b'', ''z-ai/glm-4.5-air:free'', ''openai/gpt-oss-120b'']) \<and>
      (\<forall>i<length [''openai/gpt-oss-120b'', ''z-ai/glm-4.5-air:free'', ''openai/gpt-oss-120b''].
         (\<forall>j<length [''openai/gpt-oss-120b'', ''z-ai/glm-4.5-air:free'', ''openai/gpt-oss-120b'']. i < j \<longrightarrow> [''openai/gpt-oss-120b'', ''z-ai/glm-4.5-air:free'', ''openai/gpt-oss-120b''] ! j \<noteq> [''openai/gpt-oss-120b'', ''z-ai/glm-4.5-air:free'', ''openai/gpt-oss-120b''] ! i) \<longrightarrow>
         (\<exists>r. query_model ((\<lambda>i model msgs. Responds \<lparr>status_code = 200, response_text = [],
          response_json = Inr (JObj [(''choices'',
            JArr [JObj [(''message'', JObj [(''content'', JStr ''ok''), (''reasoning_details'', JInt (int i))])]])])\<rparr>) i)
                ([''openai/gpt-oss-120b'', ''z-ai/glm-4.5-air:free'', ''openai/gpt-oss-120b''] ! i) [[(''role'', ''user''), (''content'', ''hi'')]] = Inr r \<and>
              map_of d ([''openai/gpt-oss-120b'', ''z-ai/glm-4.5-air:free'', ''openai/gpt-oss-120b''] ! i) = Some r)) \<and>
      (\<not> distinct [''openai/gpt-oss-120b'', ''z-ai/glm-4.5-air:free'', ''openai/gpt-oss-120b''] \<longrightarrow> length d < length [''openai/gpt-oss-120b'', ''z-ai/glm-4.5-air:free'', ''openai/gpt-oss-120b'']) \<and>
      (distinct [''openai/gpt-oss-120b'', ''z-ai/glm-4.5-air:free'', ''openai/gpt-oss-120b''] \<longrightarrow> length d = length [''openai/gpt-oss-120b'', ''z-ai/glm-4.5-air:free'', ''openai/gpt-oss-120b''])) \<and>
   query_models_parallel
     (\<lambda>i model msgs. Responds \<lparr>status_code = 200, response_text = [],
          response_json = Inr (JObj [(''choices'',
            JArr [JObj [(''message'', JObj [(''content'', JStr ''ok''), (''reasoning_details'', JInt (int i))])]])])\<rparr>)
     [2, 0, 1] [''openai/gpt-oss-120b'', ''z-ai/glm-4.5-air:free'', ''openai/gpt-oss-120b''] [[(''role'', ''user''), (''content'', ''hi'')]] =
   Some (Inr [(''openai/gpt-oss-120b'', Some \<lparr>content = JStr ''ok'', reasoning_details = JInt 2\<rparr>),
              (''z-ai/glm-4.5-air:free'', Some \<lparr>content = JStr ''ok'', reasoning_details = JInt 1\<rparr>)])"
proof -
  have h: "set [2, 0, 1] = {..<length [''openai/gpt-oss-120b'', ''z-ai/glm-4.5-air:free'', ''openai/gpt-oss-120b'']}"
    by (simp add: lessThan_Suc insert_commute numeral_2_eq_2)
  have v: "query_models_parallel
     (\<lambda>i model msgs. Responds \<lparr>status_code = 200, response_text = [],
          response_json = Inr (JObj [(''choices'',
            JArr [JObj [(''message'', JObj [(''content'', JStr ''ok''), (''reasoning_details'', JInt (int i))])]])])\<rparr>)
     [2, 0, 1] [''openai/gpt-oss-120b'', ''z-ai/glm-4.5-air:free'', ''openai/gpt-oss-120b''] [[(''role'', ''user''), (''content'', ''hi'')]] =
   Some (Inr [(''openai/gpt-oss-120b'', Some \<lparr>content = JStr ''ok'', reasoning_details = JInt 2\<rparr>),
              (''z-ai/glm-4.5-air:free'', Some \<lparr>content = JStr ''ok'', reasoning_details = JInt 1\<rparr>)])"
    by (simp add: query_models_parallel_def gather_def dict_of_def query_model_def
          query_model_try_def and_then_def enumerate_eq_zip numeral_2_eq_2)
  show ?thesis
    using h v query_models_parallel_duplicates [OF h, of
     "(\<lambda>i model msgs. Responds \<lparr>status_code = 200, response_text = [],
          response_json = Inr (JObj [(''choices'',
            JArr [JObj [(''message'', JObj [(''content'', JStr ''ok''), (''reasoning_details'', JInt (int i))])]])])\<rparr>)" "[[(''role'', ''user''), (''content'', ''hi'')]]"]
    by blast
qed

section \<open>Properties of the endpoints\<close>

subsection \<open>Runs\<close>

lemma precedes_iff:
  "precedes P Q xs \<longleftrightarrow> (\<forall>j<length xs. Q (xs ! j) \<longrightarrow> (\<exists>i<j. P (xs ! i)))"
proof (induction xs)
  case Nil
  show ?case by simp
next
  case (Cons x xs)
  show ?case
  proof (cases "Q x")
    case True
    then show ?thesis by auto
  next
    case q: False
    show ?thesis
    proof (cases "P x")
      case True
      with q show ?thesis
        by (auto simp: nth_Cons split: nat.splits)
    next
      case False
      have "(\<forall>j<length (x # xs). Q ((x # xs) ! j) \<longrightarrow> (\<exists>i<j. P ((x # xs) ! i))) \<longleftrightarrow>
            (\<forall>j<length xs. Q (xs ! j) \<longrightarrow> (\<exists>i<j. P (xs ! i)))"
        (is "?l \<longleftrightarrow> ?r")
      proof
        assume l: ?l
        show ?r
        proof (intro allI impI)
          fix j assume j: "j < length xs" "Q (xs ! j)"
          with l [rule_format, of "Suc j"] obtain i where i: "i < Suc j" "P ((x # xs) ! i)"
            by auto
          with False obtain i' where "i = Suc i'"
            by (cases i) auto
          with i show "\<exists>i<j. P (xs ! i)"
            by auto
        qed
      next
        assume r: ?r
        show ?l
        proof (intro allI impI)
          fix j assume j: "j < length (x # xs)" "Q ((x # xs) ! j)"
          with q obtain j' where j': "j = Suc j'"
            by (cases j) auto
          with j r [rule_format, of j'] obtain i where "i < j'" "P (xs ! i)"
            by auto
          with j' show "\<exists>i<j. P ((x # xs) ! i)"
            by (intro exI [where x = "Suc i"]) simp
        qed
      qed
      with q False Cons.IH show ?thesis
        by simp
    qed
  qed
qed

lemma precedes_append:
  "precedes P Q (xs @ ys) \<longleftrightarrow>
     precedes P Q xs \<and> ((\<exists>x\<in>set xs. P x) \<or> precedes P Q ys)"
  by (induction xs) auto

lemma seq_pair:
  "seq (tr, r) f = (case r of Inl e \<Rightarrow> (tr, Inl e) | Inr a \<Rightarrow> apfst ((@) tr) (f a))"
  by (cases r) (simp_all add: seq_def apfst_def map_prod_def split: prod.splits)

lemma apfst_seq: "apfst ((@) tr) (seq m f) = seq (apfst ((@) tr) m) f"
  by (cases m) (simp add: seq_def split: sum.splits)

lemmas run_simps = seq_pair apfst_seq yield_def expr_def await_def storage_def

lemma events_of_simps [simp]:
  "events_of [] = []"
  "events_of (Yield ev # tr) = ev # events_of tr"
  "events_of (Stored sc # tr) = events_of tr"
  "events_of (Await c # tr) = events_of tr"
  "events_of (CreateTask c # tr) = events_of tr"
  "events_of (AwaitTask c # tr) = events_of tr"
  "events_of (tr @ tr') = events_of tr @ events_of tr'"
  by (simp_all add: events_of_def)

lemma stored_of_simps [simp]:
  "stored_of [] = []"
  "stored_of (Stored sc # tr) = sc # stored_of tr"
  "stored_of (Yield ev # tr) = stored_of tr"
  "stored_of (Await c # tr) = stored_of tr"
  "stored_of (CreateTask c # tr) = stored_of tr"
  "stored_of (AwaitTask c # tr) = stored_of tr"
  "stored_of (tr @ tr') = stored_of tr @ stored_of tr'"
  by (simp_all add: stored_of_def)

lemma set_events_of: "ev \<in> set (events_of tr) \<longleftrightarrow> Yield ev \<in> set tr"
proof (induction tr)
  case Nil
  show ?case by simp
next
  case (Cons x tr)
  then show ?case by (cases x) auto
qed

subsection \<open>Streaming mode\<close>

lemma event_generator_try_returns:
  assumes "snd (event_generator_try env cid rc first) = Inr u"
  shows "\<exists>s1 s2 lm ag s3.
           storage_raises env (AddUserMessage cid rc) = None \<and>
           stage1_collect_responses env rc = Inr s1 \<and>
           stage2_collect_rankings env rc s1 = Inr (s2, lm) \<and>
           calculate_aggregate_rankings env s2 lm = Inr ag \<and>
           stage3_synthesize_final env rc s1 s2 = Inr s3 \<and>
           storage_raises env (AddAssistantMessage cid s1 s2 s3) = None \<and>
           (if first then
              \<exists>t. generate_conversation_title env rc = Inr t \<and>
                  storage_raises env (UpdateConversationTitle cid t) = None \<and>
                  fst (event_generator_try env cid rc first) =
                    [Stored (AddUserMessage cid rc),
                     CreateTask (GenerateConversationTitle rc),
                     Yield Stage1Start,
                     Await (Stage1CollectResponses rc),
                     Yield (Stage1Complete s1),
                     Yield Stage2Start,
                     Await (Stage2CollectRankings rc s1),
                     Yield (Stage2Complete s2 lm ag),
                     Yield Stage3Start,
                     Await (Stage3SynthesizeFinal rc s1 s2),
                     Yield (Stage3Complete s3),
                     AwaitTask (GenerateConversationTitle rc),
                     Stored (UpdateConversationTitle cid t),
                     Yield (TitleComplete t),
                     Stored (AddAssistantMessage cid s1 s2 s3),
                     Yield Complete]
            else
              fst (event_generator_try env cid rc first) =
                    [Stored (AddUserMessage cid rc),
                     Yield Stage1Start,
                     Await (Stage1CollectResponses rc),
                     Yield (Stage1Complete s1),
                     Yield Stage2Start,
                     Await (Stage2CollectRankings rc s1),
                     Yield (Stage2Complete s2 lm ag),
                     Yield Stage3Start,
                     Await (Stage3SynthesizeFinal rc s1 s2),
                     Yield (Stage3Complete s3),
                     Stored (AddAssistantMessage cid s1 s2 s3),
                     Yield Complete])"
  using assms
  by (auto simp: event_generator_try_def run_simps split: sum.splits option.splits if_splits)

lemma try_no_error:
  "event_generator_try env cid rc first = (tr, r) \<Longrightarrow> Yield (Error m) \<notin> set tr"
  by (auto simp: event_generator_try_def run_simps split: sum.splits option.splits if_splits)

lemma try_raises_no_complete:
  "event_generator_try env cid rc first = (tr, Inl e) \<Longrightarrow> Yield Complete \<notin> set tr"
  by (auto simp: event_generator_try_def run_simps split: sum.splits option.splits if_splits)

lemma try_raises_no_assistant:
  "event_generator_try env cid rc first = (tr, Inl e) \<Longrightarrow>
   Stored (AddAssistantMessage c a b d) \<notin> set tr"
  by (auto simp: event_generator_try_def run_simps split: sum.splits option.splits if_splits)

lemma try_user_first:
  "event_generator_try env cid rc first = (tr, r) \<Longrightarrow>
   precedes (\<lambda>x. x = Stored (AddUserMessage cid rc)) (\<lambda>x. \<exists>ev. x = Yield ev) tr"
  by (auto simp: event_generator_try_def run_simps split: sum.splits option.splits if_splits)

lemma try_assistant_once:
  "event_generator_try env cid rc first = (tr, r) \<Longrightarrow>
   length (filter (\<lambda>x. \<exists>c a b d. x = Stored (AddAssistantMessage c a b d)) tr) \<le> 1"
  by (auto simp: event_generator_try_def run_simps split: sum.splits option.splits if_splits)

lemma try_assistant_after_stage3:
  "event_generator_try env cid rc first = (tr, r) \<Longrightarrow>
   precedes (\<lambda>x. \<exists>s3. x = Yield (Stage3Complete s3))
     (\<lambda>x. \<exists>c a b d. x = Stored (AddAssistantMessage c a b d)) tr"
  by (auto simp: event_generator_try_def run_simps split: sum.splits option.splits if_splits)

lemma try_assistant_after_title:
  "event_generator_try env cid rc True = (tr, r) \<Longrightarrow>
   precedes (\<lambda>x. \<exists>t. x = Yield (TitleComplete t))
     (\<lambda>x. \<exists>c a b d. x = Stored (AddAssistantMessage c a b d)) tr"
  by (auto simp: event_generator_try_def run_simps split: sum.splits option.splits if_splits)

lemma try_assistant_before_complete:
  "event_generator_try env cid rc first = (tr, r) \<Longrightarrow>
   precedes (\<lambda>x. \<exists>c a b d. x = Stored (AddAssistantMessage c a b d))
     (\<lambda>x. x = Yield Complete) tr"
  by (auto simp: event_generator_try_def run_simps split: sum.splits option.splits if_splits)

lemma try_raises_persisted:
  "event_generator_try env cid rc first = (tr, Inl e) \<Longrightarrow>
   get_conversation st cid = Some conv \<Longrightarrow>
   map_option messages (persisted st tr cid) =
     Some (messages conv @
           (if storage_raises env (AddUserMessage cid rc) = None then [UserMessage rc] else []))"
  by (auto simp: event_generator_try_def run_simps persisted_def get_conversation_def
           split: sum.splits option.splits if_splits)

lemma try_task_created_first:
  "event_generator_try env cid rc True = (tr, r) \<Longrightarrow>
   precedes (\<lambda>x. x = CreateTask (GenerateConversationTitle rc))
     (\<lambda>x. (\<exists>ev. x = Yield ev) \<or> (\<exists>c. x = Await c) \<or> (\<exists>c. x = AwaitTask c)) tr"
  by (auto simp: event_generator_try_def run_simps split: sum.splits option.splits if_splits)

lemma try_task_created:
  "event_generator_try env cid rc True = (tr, r) \<Longrightarrow>
   storage_raises env (AddUserMessage cid rc) = None \<Longrightarrow>
   take 2 tr = [Stored (AddUserMessage cid rc), CreateTask (GenerateConversationTitle rc)]"
  by (auto simp: event_generator_try_def run_simps split: sum.splits option.splits if_splits)

lemma try_task_awaited_after_stage3:
  "event_generator_try env cid rc first = (tr, r) \<Longrightarrow>
   precedes (\<lambda>x. \<exists>s3. x = Yield (Stage3Complete s3)) (\<lambda>x. \<exists>c. x = AwaitTask c) tr"
  by (auto simp: event_generator_try_def run_simps split: sum.splits option.splits if_splits)

lemma try_task_awaited_before_assistant:
  "event_generator_try env cid rc True = (tr, r) \<Longrightarrow>
   precedes (\<lambda>x. x = AwaitTask (GenerateConversationTitle rc))
     (\<lambda>x. \<exists>c a b d. x = Stored (AddAssistantMessage c a b d)) tr"
  by (auto simp: event_generator_try_def run_simps split: sum.splits option.splits if_splits)

lemma try_no_await_of_title:
  "event_generator_try env cid rc first = (tr, r) \<Longrightarrow>
   Await (GenerateConversationTitle q) \<notin> set tr"
  by (auto simp: event_generator_try_def run_simps split: sum.splits option.splits if_splits)

lemma precedes_weaken:
  "precedes P Q xs \<Longrightarrow> (\<And>x. Q' x \<Longrightarrow> Q x) \<Longrightarrow> precedes P Q' xs"
  by (induction xs) auto

lemma event_generator_eq:
  "event_generator_try env cid rc first = (tr, r) \<Longrightarrow>
   event_generator env cid rc first =
     (case r of Inl e \<Rightarrow> tr @ [Yield (Error (str_exn e))] | Inr u \<Rightarrow> tr)"
  by (simp add: event_generator_def split: sum.splits)

lemma persisted_yield: "persisted st (tr @ [Yield ev]) = persisted st tr"
  by (simp add: persisted_def)

lemma send_message_stream_eq:
  "get_conversation st cid = Some conv \<Longrightarrow>
   send_message_stream env st cid rc = Inr (event_generator env cid rc (messages conv = []))"
  by (simp add: send_message_stream_def)

text \<open>
  Claim C1. In streaming mode, a run whose \<^verbatim>\<open>try\<close> block ends without an exception emits
  exactly \<^verbatim>\<open>stage1_start\<close>, \<^verbatim>\<open>stage1_complete\<close> with the Stage 1 data, \<^verbatim>\<open>stage2_start\<close>,
  \<^verbatim>\<open>stage2_complete\<close> with the rankings, the label map and the aggregate rankings,
  \<^verbatim>\<open>stage3_start\<close>, \<^verbatim>\<open>stage3_complete\<close> with the final answer, then \<^verbatim>\<open>title_complete\<close> if and
  only if the conversation had no message, then \<^verbatim>\<open>complete\<close>.
\<close>

theorem send_message_stream_events:
  assumes "get_conversation st cid = Some conv"
    and "snd (event_generator_try env cid rc (messages conv = [])) = Inr u"
  shows "\<exists>tr s1 s2 lm ag s3.
           send_message_stream env st cid rc = Inr tr \<and>
           stage1_collect_responses env rc = Inr s1 \<and>
           stage2_collect_rankings env rc s1 = Inr (s2, lm) \<and>
           calculate_aggregate_rankings env s2 lm = Inr ag \<and>
           stage3_synthesize_final env rc s1 s2 = Inr s3 \<and>
           (if messages conv = [] then
              \<exists>t. generate_conversation_title env rc = Inr t \<and>
                  events_of tr =
                    [Stage1Start, Stage1Complete s1, Stage2Start, Stage2Complete s2 lm ag,
                     Stage3Start, Stage3Complete s3, TitleComplete t, Complete]
            else
              events_of tr =
                [Stage1Start, Stage1Complete s1, Stage2Start, Stage2Complete s2 lm ag,
                 Stage3Start, Stage3Complete s3, Complete])"
proof -
  let ?T = "event_generator_try env cid rc (messages conv = [])"
  have g: "event_generator env cid rc (messages conv = []) = fst ?T"
    using assms(2) by (cases ?T) (simp add: event_generator_def)
  from event_generator_try_returns [OF assms(2)] obtain s1 s2 lm ag s3 where
    s1: "stage1_collect_responses env rc = Inr s1"
    and s2: "stage2_collect_rankings env rc s1 = Inr (s2, lm)"
    and ag: "calculate_aggregate_rankings env s2 lm = Inr ag"
    and s3: "stage3_synthesize_final env rc s1 s2 = Inr s3"
    and tr: "if messages conv = [] then
              \<exists>t. generate_conversation_title env rc = Inr t \<and>
                  storage_raises env (UpdateConversationTitle cid t) = None \<and>
                  fst ?T =
                    [Stored (AddUserMessage cid rc),
                     CreateTask (GenerateConversationTitle rc),
                     Yield Stage1Start,
                     Await (Stage1CollectResponses rc),
                     Yield (Stage1Complete s1),
                     Yield Stage2Start,
                     Await (Stage2CollectRankings rc s1),
                     Yield (Stage2Complete s2 lm ag),
                     Yield Stage3Start,
                     Await (Stage3SynthesizeFinal rc s1 s2),
                     Yield (Stage3Complete s3),
                     AwaitTask (GenerateConversationTitle rc),
                     Stored (UpdateConversationTitle cid t),
                     Yield (TitleComplete t),
                     Stored (AddAssistantMessage cid s1 s2 s3),
                     Yield Complete]
            else
              fst ?T =
                    [Stored (AddUserMessage cid rc),
                     Yield Stage1Start,
                     Await (Stage1CollectResponses rc),
                     Yield (Stage1Complete s1),
                     Yield Stage2Start,
                     Await (Stage2CollectRankings rc s1),
                     Yield (Stage2Complete s2 lm ag),
                     Yield Stage3Start,
                     Await (Stage3SynthesizeFinal rc s1 s2),
                     Yield (Stage3Complete s3),
                     Stored (AddAssistantMessage cid s1 s2 s3),
                     Yield Complete]"
    by blast
  have ev: "if messages conv = [] then
              \<exists>t. generate_conversation_title env rc = Inr t \<and>
                  events_of (fst ?T) =
                    [Stage1Start, Stage1Complete s1, Stage2Start, Stage2Complete s2 lm ag,
                     Stage3Start, Stage3Complete s3, TitleComplete t, Complete]
            else
              events_of (fst ?T) =
                [Stage1Start, Stage1Complete s1, Stage2Start, Stage2Complete s2 lm ag,
                 Stage3Start, Stage3Complete s3, Complete]"
  proof (cases "messages conv = []")
    case True
    with tr obtain t where "generate_conversation_title env rc = Inr t"
      and "fst ?T =
                    [Stored (AddUserMessage cid rc),
                     CreateTask (GenerateConversationTitle rc),
                     Yield Stage1Start,
                     Await (Stage1CollectResponses rc),
                     Yield (Stage1Complete s1),
                     Yield Stage2Start,
                     Await (Stage2CollectRankings rc s1),
                     Yield (Stage2Complete s2 lm ag),
                     Yield Stage3Start,
                     Await (Stage3SynthesizeFinal rc s1 s2),
                     Yield (Stage3Complete s3),
                     AwaitTask (GenerateConversationTitle rc),
                     Stored (UpdateConversationTitle cid t),
                     Yield (TitleComplete t),
                     Stored (AddAssistantMessage cid s1 s2 s3),
                     Yield Complete]"
      by auto
    with True show ?thesis
      by simp
  next
    case False
    with tr show ?thesis
      by simp
  qed
  show ?thesis
    using send_message_stream_eq [OF assms(1), of env rc] g s1 s2 ag s3 ev
    by (intro exI [where x = "fst ?T"] exI [where x = s1] exI [where x = s2]
          exI [where x = lm] exI [where x = ag] exI [where x = s3]) simp
qed

theorem send_message_stream_events_witness:
  "\<exists>tr. send_message_stream example_env example_store ''c1'' ''hi'' = Inr tr \<and>
        events_of tr =
          [Stage1Start, Stage1Complete (JArr [JObj [(''model'', JStr ''m1'')]]),
           Stage2Start,
           Stage2Complete (JArr []) (JObj [(''Response A'', JStr ''m1'')]) (JArr []),
           Stage3Start, Stage3Complete (JObj [(''model'', JStr ''m1'')]),
           TitleComplete ''Greeting'', Complete]"
proof -
  have h1: "get_conversation example_store ''c1'' =
              Some \<lparr>title = ''New Conversation'', messages = []\<rparr>"
    by (simp add: get_conversation_def example_store_def)
  have h2: "snd (event_generator_try example_env ''c1'' ''hi''
              (messages \<lparr>title = ''New Conversation'', messages = []\<rparr> = [])) = Inr ()"
    by (simp add: event_generator_try_def run_simps example_env_def)
  show ?thesis
    using send_message_stream_events [OF h1 h2]
    by (auto simp: example_env_def)
qed

text \<open>
  Claim C6. In streaming mode, when an exception ends the \<^verbatim>\<open>try\<close> block of the generator,
  the events are those emitted before it followed by one \<^verbatim>\<open>error\<close> event carrying
  \<^verbatim>\<open>str(e)\<close>, which is the last effect of the run; no \<^verbatim>\<open>error\<close> and no \<^verbatim>\<open>complete\<close> event is
  among the earlier ones, so the stream holds exactly one \<^verbatim>\<open>error\<close> event and nothing
  after it.
\<close>

theorem event_generator_error:
  assumes "snd (event_generator_try env cid rc first) = Inl e"
  shows "\<exists>pre. events_of (event_generator env cid rc first) = pre @ [Error (str_exn e)] \<and>
           (\<forall>m. Error m \<notin> set pre) \<and>
           Complete \<notin> set pre \<and>
           last (event_generator env cid rc first) = Yield (Error (str_exn e)) \<and>
           length (filter (\<lambda>ev. \<exists>m. ev = Error m)
                     (events_of (event_generator env cid rc first))) = 1"
proof -
  obtain tr where T: "event_generator_try env cid rc first = (tr, Inl e)"
    using assms by (cases "event_generator_try env cid rc first") simp
  have g: "event_generator env cid rc first = tr @ [Yield (Error (str_exn e))]"
    using event_generator_eq [OF T] by simp
  have ne: "\<forall>m. Error m \<notin> set (events_of tr)"
    using try_no_error [OF T] by (simp add: set_events_of)
  have nc: "Complete \<notin> set (events_of tr)"
    using try_raises_no_complete [OF T] by (simp add: set_events_of)
  have "filter (\<lambda>ev. \<exists>m. ev = Error m) (events_of tr) = []"
    using ne by (auto simp: filter_empty_conv)
  then have one: "length (filter (\<lambda>ev. \<exists>m. ev = Error m)
                     (events_of (event_generator env cid rc first))) = 1"
    by (simp add: g)
  show ?thesis
    using ne nc one by (intro exI [where x = "events_of tr"]) (simp add: g)
qed

theorem event_generator_error_witness:
  "\<exists>pre. events_of (event_generator
            (example_env\<lparr>stage2_collect_rankings :=
               (\<lambda>q s1. Inl (Exn ''RuntimeError'' ''ranking failed''))\<rparr>)
            ''c1'' ''hi'' True) = pre @ [Error ''ranking failed''] \<and>
         (\<forall>m. Error m \<notin> set pre) \<and> Complete \<notin> set pre"
proof -
  have h: "snd (event_generator_try
            (example_env\<lparr>stage2_collect_rankings :=
               (\<lambda>q s1. Inl (Exn ''RuntimeError'' ''ranking failed''))\<rparr>)
            ''c1'' ''hi'' True) = Inl (Exn ''RuntimeError'' ''ranking failed'')"
    by (simp add: event_generator_try_def run_simps example_env_def)
  show ?thesis
    using event_generator_error [OF h] by auto
qed

lemma precedes_snoc: "\<not> Q y \<Longrightarrow> precedes P Q (xs @ [y]) = precedes P Q xs"
  by (induction xs) auto

lemma try_user_stored:
  "event_generator_try env cid rc first = (tr, r) \<Longrightarrow>
   storage_raises env (AddUserMessage cid rc) = None \<Longrightarrow>
   Stored (AddUserMessage cid rc) \<in> set tr"
  by (auto simp: event_generator_try_def run_simps split: sum.splits option.splits if_splits)

lemma try_returns_stores:
  "event_generator_try env cid rc first = (tr, Inr u) \<Longrightarrow>
   get_conversation st cid = Some conv \<Longrightarrow>
   \<exists>s1 s2 lm s3.
     stage1_collect_responses env rc = Inr s1 \<and>
     stage2_collect_rankings env rc s1 = Inr (s2, lm) \<and>
     stage3_synthesize_final env rc s1 s2 = Inr s3 \<and>
     last tr = Yield Complete \<and>
     Yield Complete \<in> set tr \<and>
     filter (\<lambda>x. \<exists>c a b d. x = Stored (AddAssistantMessage c a b d)) tr =
       [Stored (AddAssistantMessage cid s1 s2 s3)] \<and>
     map_option messages (persisted st tr cid) =
       Some (messages conv @ [UserMessage rc, AssistantMessage s1 s2 s3])"
  by (auto simp: event_generator_try_def run_simps persisted_def get_conversation_def
           split: sum.splits option.splits if_splits)

text \<open>
  Claim C10. In streaming mode the call that stores the user message returns before any
  stage event is emitted. When the \<^verbatim>\<open>try\<close> block ends without an exception, the assistant
  message is stored exactly once, with the results of the three stages, after
  \<^verbatim>\<open>stage3_complete\<close> (and after \<^verbatim>\<open>title_complete\<close> for a first message) and before
  \<^verbatim>\<open>complete\<close>, which is the last effect; the conversation then holds its earlier messages,
  the user message and the assistant message. When an exception ends the \<^verbatim>\<open>try\<close> block the
  \<^verbatim>\<open>error\<close> event is emitted, and whenever it is emitted no call that stores the assistant
  message has returned, while the call that stored the user message, if it did not raise,
  has returned; if no storage call raises, the conversation holds its earlier messages
  followed by the user message and no assistant message.
\<close>

theorem event_generator_persistence:
  assumes "get_conversation st cid = Some conv"
  shows "precedes (\<lambda>x. x = Stored (AddUserMessage cid rc))
           (\<lambda>x. \<exists>ev. x = Yield ev \<and> (\<forall>m. ev \<noteq> Error m))
           (event_generator env cid rc first) \<and>
         length (filter (\<lambda>x. \<exists>c a b d. x = Stored (AddAssistantMessage c a b d))
           (event_generator env cid rc first)) \<le> 1 \<and>
         precedes (\<lambda>x. \<exists>s3. x = Yield (Stage3Complete s3))
           (\<lambda>x. \<exists>c a b d. x = Stored (AddAssistantMessage c a b d))
           (event_generator env cid rc first) \<and>
         (first \<longrightarrow>
          precedes (\<lambda>x. \<exists>t. x = Yield (TitleComplete t))
           (\<lambda>x. \<exists>c a b d. x = Stored (AddAssistantMessage c a b d))
           (event_generator env cid rc first)) \<and>
         precedes (\<lambda>x. \<exists>c a b d. x = Stored (AddAssistantMessage c a b d))
           (\<lambda>x. x = Yield Complete)
           (event_generator env cid rc first) \<and>
         (\<forall>u. snd (event_generator_try env cid rc first) = Inr u \<longrightarrow>
          (\<exists>s1 s2 lm s3.
             stage1_collect_responses env rc = Inr s1 \<and>
             stage2_collect_rankings env rc s1 = Inr (s2, lm) \<and>
             stage3_synthesize_final env rc s1 s2 = Inr s3 \<and>
             last (event_generator env cid rc first) = Yield Complete \<and>
             Yield Complete \<in> set (event_generator env cid rc first) \<and>
             filter (\<lambda>x. \<exists>c a b d. x = Stored (AddAssistantMessage c a b d))
               (event_generator env cid rc first) =
               [Stored (AddAssistantMessage cid s1 s2 s3)] \<and>
             (\<forall>m. Yield (Error m) \<notin> set (event_generator env cid rc first)) \<and>
             map_option messages (persisted st (event_generator env cid rc first) cid) =
               Some (messages conv @ [UserMessage rc, AssistantMessage s1 s2 s3]))) \<and>
         (Yield Complete \<in> set (event_generator env cid rc first) \<longrightarrow>
          (\<exists>u. snd (event_generator_try env cid rc first) = Inr u)) \<and>
         (\<forall>e. snd (event_generator_try env cid rc first) = Inl e \<longrightarrow>
          last (event_generator env cid rc first) = Yield (Error (str_exn e)) \<and>
          Yield (Error (str_exn e)) \<in> set (event_generator env cid rc first)) \<and>
         (\<forall>m. Yield (Error m) \<in> set (event_generator env cid rc first) \<longrightarrow>
          (\<exists>e. snd (event_generator_try env cid rc first) = Inl e \<and> m = str_exn e) \<and>
          (\<forall>c a b d. Stored (AddAssistantMessage c a b d) \<notin>
             set (event_generator env cid rc first)) \<and>
          (storage_raises env (AddUserMessage cid rc) = None \<longrightarrow>
             Stored (AddUserMessage cid rc) \<in> set (event_generator env cid rc first)) \<and>
          ((\<forall>sc. storage_raises env sc = None) \<longrightarrow>
             map_option messages (persisted st (event_generator env cid rc first) cid) =
               Some (messages conv @ [UserMessage rc])))"
proof -
  obtain tr r where T: "event_generator_try env cid rc first = (tr, r)"
    by (cases "event_generator_try env cid rc first")
  let ?G = "event_generator env cid rc first"
  let ?asst = "\<lambda>x. \<exists>c a b d. x = Stored (AddAssistantMessage c a b d)"
  have user: "precedes (\<lambda>x. x = Stored (AddUserMessage cid rc))
                (\<lambda>x. \<exists>ev. x = Yield ev \<and> (\<forall>m. ev \<noteq> Error m)) tr"
    by (rule precedes_weaken [OF try_user_first [OF T]]) blast
  have title: "first \<longrightarrow> precedes (\<lambda>x. \<exists>t. x = Yield (TitleComplete t)) ?asst tr"
    using T try_assistant_after_title [of env cid rc tr r] by (cases first) simp_all
  show ?thesis
  proof (cases r)
    case (Inl e)
    have g: "?G = tr @ [Yield (Error (str_exn e))]"
      using event_generator_eq [OF T] Inl by simp
    have T': "event_generator_try env cid rc first = (tr, Inl e)"
      using T Inl by simp
    have sT: "snd (event_generator_try env cid rc first) = Inl e"
      by (simp add: T')
    have c1: "precedes (\<lambda>x. x = Stored (AddUserMessage cid rc))
                (\<lambda>x. \<exists>ev. x = Yield ev \<and> (\<forall>m. ev \<noteq> Error m)) ?G"
      using user by (simp add: g precedes_snoc)
    have c2: "length (filter ?asst ?G) \<le> 1"
      using try_assistant_once [OF T] by (simp add: g)
    have c3: "precedes (\<lambda>x. \<exists>s3. x = Yield (Stage3Complete s3)) ?asst ?G"
      using try_assistant_after_stage3 [OF T] by (simp add: g precedes_snoc)
    have c4: "first \<longrightarrow> precedes (\<lambda>x. \<exists>t. x = Yield (TitleComplete t)) ?asst ?G"
      using title unfolding g by (simp add: precedes_snoc)
    have c5: "precedes ?asst (\<lambda>x. x = Yield Complete) ?G"
      using try_assistant_before_complete [OF T] by (simp add: g precedes_snoc)
    have c6: "\<forall>u. snd (event_generator_try env cid rc first) \<noteq> Inr u"
      by (simp add: sT)
    have c7: "Yield Complete \<notin> set ?G"
      using try_raises_no_complete [OF T'] by (simp add: g)
    have c8: "last ?G = Yield (Error (str_exn e)) \<and> Yield (Error (str_exn e)) \<in> set ?G"
      by (simp add: g)
    have c8': "\<forall>e'. snd (event_generator_try env cid rc first) = Inl e' \<longrightarrow>
          last ?G = Yield (Error (str_exn e')) \<and> Yield (Error (str_exn e')) \<in> set ?G"
      using c8 by (simp add: sT)
    have c9a: "\<forall>m. Yield (Error m) \<in> set ?G \<longrightarrow>
                (\<exists>e'. snd (event_generator_try env cid rc first) = Inl e' \<and> m = str_exn e')"
      using try_no_error [OF T] by (auto simp: g sT)
    have c9b: "\<forall>c a b d. Stored (AddAssistantMessage c a b d) \<notin> set ?G"
      using try_raises_no_assistant [OF T'] by (simp add: g)
    have c9c: "storage_raises env (AddUserMessage cid rc) = None \<longrightarrow>
                Stored (AddUserMessage cid rc) \<in> set ?G"
      using try_user_stored [OF T] by (simp add: g)
    have p: "map_option messages (persisted st ?G cid) =
            Some (messages conv @
                  (if storage_raises env (AddUserMessage cid rc) = None
                   then [UserMessage rc] else []))"
      using try_raises_persisted [OF T' assms] by (simp only: g persisted_yield)
    have c9d: "(\<forall>sc. storage_raises env sc = None) \<longrightarrow>
             map_option messages (persisted st ?G cid) = Some (messages conv @ [UserMessage rc])"
    proof
      assume "\<forall>sc. storage_raises env sc = None"
      then have "storage_raises env (AddUserMessage cid rc) = None"
        by blast
      with p show "map_option messages (persisted st ?G cid) =
                     Some (messages conv @ [UserMessage rc])"
        by simp
    qed
    show ?thesis
      using c1 c2 c3 c4 c5 c6 c7 c8' c9a c9b c9c c9d by blast
  next
    case (Inr u)
    have g: "?G = tr"
      using event_generator_eq [OF T] Inr by simp
    have T': "event_generator_try env cid rc first = (tr, Inr u)"
      using T Inr by simp
    have sT: "snd (event_generator_try env cid rc first) = Inr u"
      by (simp add: T')
    have c1: "precedes (\<lambda>x. x = Stored (AddUserMessage cid rc))
                (\<lambda>x. \<exists>ev. x = Yield ev \<and> (\<forall>m. ev \<noteq> Error m)) ?G"
      using user by (simp add: g)
    have c2: "length (filter ?asst ?G) \<le> 1"
      using try_assistant_once [OF T] by (simp add: g)
    have c3: "precedes (\<lambda>x. \<exists>s3. x = Yield (Stage3Complete s3)) ?asst ?G"
      using try_assistant_after_stage3 [OF T] by (simp add: g)
    have c4: "first \<longrightarrow> precedes (\<lambda>x. \<exists>t. x = Yield (TitleComplete t)) ?asst ?G"
      using title unfolding g by simp
    have c5: "precedes ?asst (\<lambda>x. x = Yield Complete) ?G"
      using try_assistant_before_complete [OF T] by (simp add: g)
    have ne: "\<forall>m. Yield (Error m) \<notin> set ?G"
      using try_no_error [OF T] by (simp add: g)
    from try_returns_stores [OF T' assms] obtain s1 s2 lm s3 where
      s1: "stage1_collect_responses env rc = Inr s1"
      and s2: "stage2_collect_rankings env rc s1 = Inr (s2, lm)"
      and s3: "stage3_synthesize_final env rc s1 s2 = Inr s3"
      and l: "last tr = Yield Complete"
      and m: "Yield Complete \<in> set tr"
      and f: "filter ?asst tr = [Stored (AddAssistantMessage cid s1 s2 s3)]"
      and p: "map_option messages (persisted st tr cid) =
                Some (messages conv @ [UserMessage rc, AssistantMessage s1 s2 s3])"
      by blast
    have c6: "\<exists>s1 s2 lm s3.
             stage1_collect_responses env rc = Inr s1 \<and>
             stage2_collect_rankings env rc s1 = Inr (s2, lm) \<and>
             stage3_synthesize_final env rc s1 s2 = Inr s3 \<and>
             last ?G = Yield Complete \<and>
             Yield Complete \<in> set ?G \<and>
             filter ?asst ?G = [Stored (AddAssistantMessage cid s1 s2 s3)] \<and>
             (\<forall>m. Yield (Error m) \<notin> set ?G) \<and>
             map_option messages (persisted st ?G cid) =
               Some (messages conv @ [UserMessage rc, AssistantMessage s1 s2 s3])"
      unfolding g using s1 s2 s3 l m f p ne [unfolded g] by blast
    have c7: "\<exists>u. snd (event_generator_try env cid rc first) = Inr u"
      using sT by blast
    have c8: "\<forall>e. snd (event_generator_try env cid rc first) \<noteq> Inl e"
      by (simp add: sT)
    show ?thesis
      using c1 c2 c3 c4 c5 c6 c7 c8 ne by blast
  qed
qed

theorem event_generator_persistence_witness:
  "get_conversation example_store ''c1'' =
     Some \<lparr>title = ''New Conversation'', messages = []\<rparr> \<and>
   filter (\<lambda>x. \<exists>c a b d. x = Stored (AddAssistantMessage c a b d))
     (event_generator example_env ''c1'' ''hi'' True) =
     [Stored (AddAssistantMessage ''c1'' (JArr [JObj [(''model'', JStr ''m1'')]]) (JArr [])
        (JObj [(''model'', JStr ''m1'')]))] \<and>
   map_option messages
     (persisted example_store (event_generator example_env ''c1'' ''hi'' True) ''c1'') =
     Some [UserMessage ''hi'',
           AssistantMessage (JArr [JObj [(''model'', JStr ''m1'')]]) (JArr [])
             (JObj [(''model'', JStr ''m1'')])] \<and>
   Yield (Error ''chairman failed'') \<in> set (event_generator
      (example_env\<lparr>stage3_synthesize_final :=
         (\<lambda>q s1 s2. Inl (Exn ''RuntimeError'' ''chairman failed''))\<rparr>) ''c1'' ''hi'' True) \<and>
   (\<forall>c a b d. Stored (AddAssistantMessage c a b d) \<notin> set (event_generator
      (example_env\<lparr>stage3_synthesize_final :=
         (\<lambda>q s1 s2. Inl (Exn ''RuntimeError'' ''chairman failed''))\<rparr>) ''c1'' ''hi'' True)) \<and>
   map_option messages (persisted example_store (event_generator
      (example_env\<lparr>stage3_synthesize_final :=
         (\<lambda>q s1 s2. Inl (Exn ''RuntimeError'' ''chairman failed''))\<rparr>) ''c1'' ''hi'' True)
      ''c1'') = Some [UserMessage ''hi'']"
proof -
  have h: "get_conversation example_store ''c1'' =
             Some \<lparr>title = ''New Conversation'', messages = []\<rparr>"
    by (simp add: get_conversation_def example_store_def)
  have ok: "snd (event_generator_try example_env ''c1'' ''hi'' True) = Inr ()"
    by (simp add: event_generator_try_def run_simps example_env_def)
  have e: "snd (event_generator_try
      (example_env\<lparr>stage3_synthesize_final :=
         (\<lambda>q s1 s2. Inl (Exn ''RuntimeError'' ''chairman failed''))\<rparr>) ''c1'' ''hi'' True) =
      Inl (Exn ''RuntimeError'' ''chairman failed'')"
    by (simp add: event_generator_try_def run_simps example_env_def)
  have s: "\<forall>sc. storage_raises (example_env\<lparr>stage3_synthesize_final :=
         (\<lambda>q s1 s2. Inl (Exn ''RuntimeError'' ''chairman failed''))\<rparr>) sc = None"
    by (simp add: example_env_def)
  note t = event_generator_persistence [OF h, of "''hi''" example_env True]
  note t6 = t [THEN conjunct2, THEN conjunct2, THEN conjunct2, THEN conjunct2,
      THEN conjunct2, THEN conjunct1, THEN spec, of "()", THEN mp, OF ok]
  note f = event_generator_persistence [OF h, of "''hi''"
      "example_env\<lparr>stage3_synthesize_final :=
         (\<lambda>q s1 s2. Inl (Exn ''RuntimeError'' ''chairman failed''))\<rparr>" True]
  note f8 = f [THEN conjunct2, THEN conjunct2, THEN conjunct2, THEN conjunct2,
      THEN conjunct2, THEN conjunct2, THEN conjunct2, THEN conjunct1, THEN spec,
      of "Exn ''RuntimeError'' ''chairman failed''", THEN mp, OF e]
  have m: "Yield (Error ''chairman failed'') \<in> set (event_generator
      (example_env\<lparr>stage3_synthesize_final :=
         (\<lambda>q s1 s2. Inl (Exn ''RuntimeError'' ''chairman failed''))\<rparr>) ''c1'' ''hi'' True)"
    using f8 by simp
  note f9 = f [THEN conjunct2, THEN conjunct2, THEN conjunct2, THEN conjunct2,
      THEN conjunct2, THEN conjunct2, THEN conjunct2, THEN conjunct2, THEN spec,
      of "''chairman failed''", THEN mp, OF m]
  show ?thesis
    using h t6 m f9 s by (auto simp: example_env_def)
qed

subsection \<open>Title generation, and blocking mode\<close>

lemma send_message_no_task:
  "send_message env st cid rc = (tr, r) \<Longrightarrow> CreateTask c \<notin> set tr \<and> AwaitTask c \<notin> set tr"
  by (auto simp: send_message_def run_simps Let_def
           split: sum.splits option.splits if_splits)

lemma send_message_title_first:
  "send_message env st cid rc = (tr, r) \<Longrightarrow> get_conversation st cid = Some conv \<Longrightarrow>
   messages conv = [] \<Longrightarrow>
   precedes (\<lambda>x. x = Await (GenerateConversationTitle rc))
     (\<lambda>x. x = Await (RunFullCouncil rc)) tr"
  by (auto simp: send_message_def run_simps Let_def
           split: sum.splits option.splits if_splits)

lemma send_message_title_stored_first:
  "send_message env st cid rc = (tr, r) \<Longrightarrow> get_conversation st cid = Some conv \<Longrightarrow>
   messages conv = [] \<Longrightarrow>
   precedes (\<lambda>x. \<exists>t. x = Stored (UpdateConversationTitle cid t))
     (\<lambda>x. x = Await (RunFullCouncil rc)) tr"
  by (auto simp: send_message_def run_simps Let_def
           split: sum.splits option.splits if_splits)

text \<open>
  Claim C5, as amended. In streaming mode, for the first message of a conversation, the
  title task is created right after the user message is stored, before any stage event and
  before anything is awaited; the title is never awaited in place; the task is awaited only
  after \<^verbatim>\<open>stage3_complete\<close> has been emitted, and before the assistant message is stored. In
  blocking mode no task is created: the title is awaited in place, and stored, before the
  council is run.
\<close>

theorem title_generation_order:
  assumes "get_conversation st cid = Some conv" and "messages conv = []"
  shows "(\<exists>tr. send_message_stream env st cid rc = Inr tr \<and>
            (storage_raises env (AddUserMessage cid rc) = None \<longrightarrow>
             take 2 tr = [Stored (AddUserMessage cid rc),
                          CreateTask (GenerateConversationTitle rc)]) \<and>
            precedes (\<lambda>x. x = CreateTask (GenerateConversationTitle rc))
              (\<lambda>x. (\<exists>ev. x = Yield ev \<and> (\<forall>m. ev \<noteq> Error m)) \<or> (\<exists>c. x = Await c) \<or>
                   (\<exists>c. x = AwaitTask c)) tr \<and>
            (\<forall>q. Await (GenerateConversationTitle q) \<notin> set tr) \<and>
            precedes (\<lambda>x. \<exists>s3. x = Yield (Stage3Complete s3)) (\<lambda>x. \<exists>c. x = AwaitTask c) tr \<and>
            precedes (\<lambda>x. x = AwaitTask (GenerateConversationTitle rc))
              (\<lambda>x. \<exists>c a b d. x = Stored (AddAssistantMessage c a b d)) tr) \<and>
         (\<forall>c. CreateTask c \<notin> set (fst (send_message env st cid rc)) \<and>
              AwaitTask c \<notin> set (fst (send_message env st cid rc))) \<and>
         precedes (\<lambda>x. x = Await (GenerateConversationTitle rc))
           (\<lambda>x. x = Await (RunFullCouncil rc)) (fst (send_message env st cid rc)) \<and>
         precedes (\<lambda>x. \<exists>t. x = Stored (UpdateConversationTitle cid t))
           (\<lambda>x. x = Await (RunFullCouncil rc)) (fst (send_message env st cid rc))"
proof -
  obtain tr r where T: "event_generator_try env cid rc True = (tr, r)"
    by (cases "event_generator_try env cid rc True")
  let ?G = "event_generator env cid rc True"
  have s: "send_message_stream env st cid rc = Inr ?G"
    using send_message_stream_eq [OF assms(1), of env rc] assms(2) by simp
  have g: "?G = tr \<or> (\<exists>e. ?G = tr @ [Yield (Error (str_exn e))])"
    using event_generator_eq [OF T] by (cases r) auto
  have a1: "storage_raises env (AddUserMessage cid rc) = None \<longrightarrow>
             take 2 ?G = [Stored (AddUserMessage cid rc),
                          CreateTask (GenerateConversationTitle rc)]"
  proof
    assume "storage_raises env (AddUserMessage cid rc) = None"
    from try_task_created [OF T this]
    have t: "take 2 tr = [Stored (AddUserMessage cid rc),
                          CreateTask (GenerateConversationTitle rc)]" .
    then have "length (take 2 tr) = 2"
      by simp
    then have "2 \<le> length tr"
      by simp
    with t g show "take 2 ?G = [Stored (AddUserMessage cid rc),
                          CreateTask (GenerateConversationTitle rc)]"
      by auto
  qed
  have a2: "precedes (\<lambda>x. x = CreateTask (GenerateConversationTitle rc))
              (\<lambda>x. (\<exists>ev. x = Yield ev \<and> (\<forall>m. ev \<noteq> Error m)) \<or> (\<exists>c. x = Await c) \<or>
                   (\<exists>c. x = AwaitTask c)) tr"
    by (rule precedes_weaken [OF try_task_created_first [OF T]]) blast
  have a2': "precedes (\<lambda>x. x = CreateTask (GenerateConversationTitle rc))
              (\<lambda>x. (\<exists>ev. x = Yield ev \<and> (\<forall>m. ev \<noteq> Error m)) \<or> (\<exists>c. x = Await c) \<or>
                   (\<exists>c. x = AwaitTask c)) ?G"
    using g a2 by (auto simp: precedes_snoc)
  have a3: "\<forall>q. Await (GenerateConversationTitle q) \<notin> set ?G"
    using g try_no_await_of_title [OF T] by auto
  have a4: "precedes (\<lambda>x. \<exists>s3. x = Yield (Stage3Complete s3)) (\<lambda>x. \<exists>c. x = AwaitTask c) ?G"
    using g try_task_awaited_after_stage3 [OF T] by (auto simp: precedes_snoc)
  have a5: "precedes (\<lambda>x. x = AwaitTask (GenerateConversationTitle rc))
              (\<lambda>x. \<exists>c a b d. x = Stored (AddAssistantMessage c a b d)) ?G"
    using g try_task_awaited_before_assistant [OF T] by (auto simp: precedes_snoc)
  have stream: "\<exists>tr. send_message_stream env st cid rc = Inr tr \<and>
            (storage_raises env (AddUserMessage cid rc) = None \<longrightarrow>
             take 2 tr = [Stored (AddUserMessage cid rc),
                          CreateTask (GenerateConversationTitle rc)]) \<and>
            precedes (\<lambda>x. x = CreateTask (GenerateConversationTitle rc))
              (\<lambda>x. (\<exists>ev. x = Yield ev \<and> (\<forall>m. ev \<noteq> Error m)) \<or> (\<exists>c. x = Await c) \<or>
                   (\<exists>c. x = AwaitTask c)) tr \<and>
            (\<forall>q. Await (GenerateConversationTitle q) \<notin> set tr) \<and>
            precedes (\<lambda>x. \<exists>s3. x = Yield (Stage3Complete s3)) (\<lambda>x. \<exists>c. x = AwaitTask c) tr \<and>
            precedes (\<lambda>x. x = AwaitTask (GenerateConversationTitle rc))
              (\<lambda>x. \<exists>c a b d. x = Stored (AddAssistantMessage c a b d)) tr"
    by (intro exI [where x = ?G] conjI s a1 a2' a3 a4 a5)
  obtain tr' r' where S: "send_message env st cid rc = (tr', r')"
    by (cases "send_message env st cid rc")
  have b1: "\<forall>c. CreateTask c \<notin> set (fst (send_message env st cid rc)) \<and>
              AwaitTask c \<notin> set (fst (send_message env st cid rc))"
    using send_message_no_task [OF S] by (simp add: S)
  have b2: "precedes (\<lambda>x. x = Await (GenerateConversationTitle rc))
           (\<lambda>x. x = Await (RunFullCouncil rc)) (fst (send_message env st cid rc))"
    using send_message_title_first [OF S assms] by (simp add: S)
  have b3: "precedes (\<lambda>x. \<exists>t. x = Stored (UpdateConversationTitle cid t))
           (\<lambda>x. x = Await (RunFullCouncil rc)) (fst (send_message env st cid rc))"
    using send_message_title_stored_first [OF S assms] by (simp add: S)
  show ?thesis
    by (intro conjI stream b1 b2 b3)
qed

theorem title_generation_order_witness:
  "get_conversation example_store ''c1'' =
     Some \<lparr>title = ''New Conversation'', messages = []\<rparr> \<and>
   messages \<lparr>title = ''New Conversation'', messages = []\<rparr> = [] \<and>
   (\<exists>tr. send_message_stream example_env example_store ''c1'' ''hi'' = Inr tr \<and>
      take 2 tr = [Stored (AddUserMessage ''c1'' ''hi''),
                   CreateTask (GenerateConversationTitle ''hi'')]) \<and>
   precedes (\<lambda>x. x = Await (GenerateConversationTitle ''hi''))
     (\<lambda>x. x = Await (RunFullCouncil ''hi''))
     (fst (send_message example_env example_store ''c1'' ''hi''))"
proof -
  have h1: "get_conversation example_store ''c1'' =
              Some \<lparr>title = ''New Conversation'', messages = []\<rparr>"
    by (simp add: get_conversation_def example_store_def)
  have h2: "messages \<lparr>title = ''New Conversation'', messages = []\<rparr> = []"
    by simp
  have s: "storage_raises example_env (AddUserMessage ''c1'' ''hi'') = None"
    by (simp add: example_env_def)
  show ?thesis
    using h1 h2 s title_generation_order [OF h1 h2, of example_env "''hi''"]
    by blast
qed

theorem title_generation_blocking_counterexample:
  "fst (send_message example_env example_store ''c1'' ''hi'') =
     [Stored (AddUserMessage ''c1'' ''hi''),
      Await (GenerateConversationTitle ''hi''),
      Stored (UpdateConversationTitle ''c1'' ''Greeting''),
      Await (RunFullCouncil ''hi''),
      Stored (AddAssistantMessage ''c1'' (JArr [JObj [(''model'', JStr ''m1'')]]) (JArr [])
        (JObj [(''model'', JStr ''m1'')]))] \<and>
   CreateTask (GenerateConversationTitle ''hi'') \<notin>
     set (fst (send_message example_env example_store ''c1'' ''hi''))"
  by (simp add: send_message_def run_simps Let_def get_conversation_def example_store_def
        example_env_def)

text \<open>
  Claim C8. In blocking mode an exception raised by a storage call, by the title
  generation or by the council is the outcome of \<^verbatim>\<open>send_message\<close> itself: the endpoint has
  no handler, so the exception reaches the HTTP layer and no response is returned.
\<close>

theorem send_message_propagates:
  assumes "get_conversation st cid = Some conv"
  shows "(storage_raises env (AddUserMessage cid rc) = Some e \<longrightarrow>
            snd (send_message env st cid rc) = Inl e) \<and>
         (storage_raises env (AddUserMessage cid rc) = None \<and> messages conv = [] \<and>
          generate_conversation_title env rc = Inl e \<longrightarrow>
            snd (send_message env st cid rc) = Inl e) \<and>
         (\<forall>t. storage_raises env (AddUserMessage cid rc) = None \<and> messages conv = [] \<and>
          generate_conversation_title env rc = Inr t \<and>
          storage_raises env (UpdateConversationTitle cid t) = Some e \<longrightarrow>
            snd (send_message env st cid rc) = Inl e) \<and>
         (storage_raises env (AddUserMessage cid rc) = None \<and>
          (messages conv \<noteq> [] \<or>
           (\<exists>t. generate_conversation_title env rc = Inr t \<and>
                storage_raises env (UpdateConversationTitle cid t) = None)) \<and>
          run_full_council env rc = Inl e \<longrightarrow>
            snd (send_message env st cid rc) = Inl e) \<and>
         (\<forall>s1 s2 s3 md n1 n2 v.
          storage_raises env (AddUserMessage cid rc) = None \<and>
          (messages conv \<noteq> [] \<or>
           (\<exists>t. generate_conversation_title env rc = Inr t \<and>
                storage_raises env (UpdateConversationTitle cid t) = None)) \<and>
          run_full_council env rc = Inr (s1, s2, s3, md) \<and>
          py_len s1 = Inr n1 \<and> py_len s2 = Inr n2 \<and>
          py_get s3 ''model'' (JStr ''unknown'') = Inr v \<and>
          storage_raises env (AddAssistantMessage cid s1 s2 s3) = Some e \<longrightarrow>
            snd (send_message env st cid rc) = Inl e)"
proof (intro conjI allI impI)
  assume "storage_raises env (AddUserMessage cid rc) = Some e"
  then show "snd (send_message env st cid rc) = Inl e"
    using assms by (simp add: send_message_def run_simps Let_def)
next
  assume "storage_raises env (AddUserMessage cid rc) = None \<and> messages conv = [] \<and>
          generate_conversation_title env rc = Inl e"
  then show "snd (send_message env st cid rc) = Inl e"
    using assms by (simp add: send_message_def run_simps Let_def)
next
  fix t
  assume "storage_raises env (AddUserMessage cid rc) = None \<and> messages conv = [] \<and>
          generate_conversation_title env rc = Inr t \<and>
          storage_raises env (UpdateConversationTitle cid t) = Some e"
  then show "snd (send_message env st cid rc) = Inl e"
    using assms by (simp add: send_message_def run_simps Let_def)
next
  assume "storage_raises env (AddUserMessage cid rc) = None \<and>
          (messages conv \<noteq> [] \<or>
           (\<exists>t. generate_conversation_title env rc = Inr t \<and>
                storage_raises env (UpdateConversationTitle cid t) = None)) \<and>
          run_full_council env rc = Inl e"
  then show "snd (send_message env st cid rc) = Inl e"
    using assms by (auto simp: send_message_def run_simps Let_def)
next
  fix s1 s2 s3 md n1 n2 v
  assume "storage_raises env (AddUserMessage cid rc) = None \<and>
          (messages conv \<noteq> [] \<or>
           (\<exists>t. generate_conversation_title env rc = Inr t \<and>
                storage_raises env (UpdateConversationTitle cid t) = None)) \<and>
          run_full_council env rc = Inr (s1, s2, s3, md) \<and>
          py_len s1 = Inr n1 \<and> py_len s2 = Inr n2 \<and>
          py_get s3 ''model'' (JStr ''unknown'') = Inr v \<and>
          storage_raises env (AddAssistantMessage cid s1 s2 s3) = Some e"
  then show "snd (send_message env st cid rc) = Inl e"
    using assms by (auto simp: send_message_def run_simps Let_def)
qed

theorem send_message_propagates_witness:
  "get_conversation example_store ''c1'' =
     Some \<lparr>title = ''New Conversation'', messages = []\<rparr> \<and>
   snd (send_message
         (example_env\<lparr>run_full_council := (\<lambda>q. Inl (Exn ''RuntimeError'' ''council failed''))\<rparr>)
         example_store ''c1'' ''hi'') = Inl (Exn ''RuntimeError'' ''council failed'') \<and>
   snd (send_message
         (example_env\<lparr>storage_raises := (\<lambda>sc. Some (Exn ''OSError'' ''disk full''))\<rparr>)
         example_store ''c1'' ''hi'') = Inl (Exn ''OSError'' ''disk full'')"
proof -
  have h: "get_conversation example_store ''c1'' =
             Some \<lparr>title = ''New Conversation'', messages = []\<rparr>"
    by (simp add: get_conversation_def example_store_def)
  show ?thesis
    using h
      send_message_propagates [OF h, of
        "example_env\<lparr>run_full_council := (\<lambda>q. Inl (Exn ''RuntimeError'' ''council failed''))\<rparr>"
        "''hi''" "Exn ''RuntimeError'' ''council failed''"]
      send_message_propagates [OF h, of
        "example_env\<lparr>storage_raises := (\<lambda>sc. Some (Exn ''OSError'' ''disk full''))\<rparr>"
        "''hi''" "Exn ''OSError'' ''disk full''"]
    by (simp add: example_env_def)
qed

end
